theory Spec2Isabelle
  imports Main "HOL-Library.Multiset"
begin

section \<open>Python values and built-ins used by app.py\<close>

text \<open>
  Text is a list of 8-bit characters, read as the code points below 256; text holding
  higher code points is outside the model. In that range the regular-expression class
  \<^verbatim>\<open>\d\<close> matches exactly the ten ASCII digits, and \<^verbatim>\<open>\s\<close> and \<^verbatim>\<open>str.strip\<close> agree on
  the white-space characters listed in \<open>is_space\<close>.
\<close>

datatype exn =
    AttributeError | TypeError | ValueError | OverflowError
  | RequestException | HTTPError
  | ServerSelectionTimeoutError | ConnectionFailure | ConfigurationError | OperationFailure

text \<open>
  The values \<^verbatim>\<open>json.loads\<close> produces. A float is kept abstract (the type parameter);
  a dict is the list of its items, in insertion order, with distinct keys.
\<close>

datatype 'f pyval =
    PNone
  | PBool bool
  | PInt int
  | PFloat 'f
  | PStr string
  | PList "'f pyval list"
  | PDict "(string \<times> 'f pyval) list"

text \<open>
  The built-ins whose results depend on floating point or on \<^verbatim>\<open>repr\<close> are parameters:
  \<open>builtin_float\<close> is \<^verbatim>\<open>float(x)\<close>, \<open>float_bool\<close> is the truth value of a float, and
  \<open>str_other\<close> is \<^verbatim>\<open>str(x)\<close> for a float, a list or a dict. An exception is \<open>Inl\<close>.
\<close>

record 'f builtins =
  builtin_float :: "'f pyval \<Rightarrow> exn + 'f"
  float_bool :: "'f \<Rightarrow> bool"
  str_other :: "'f pyval \<Rightarrow> exn + string"

definition is_digit :: "char \<Rightarrow> bool" where
  "is_digit c = (c \<in> set ''0123456789'')"

definition is_space :: "char \<Rightarrow> bool" where
  "is_space c = (c \<in> {CHR 0x09, CHR 0x0A, CHR 0x0B, CHR 0x0C, CHR 0x0D,
                        CHR 0x1C, CHR 0x1D, CHR 0x1E, CHR 0x1F, CHR '' '',
                        CHR 0x85, CHR 0xA0})"

definition digit_val :: "char \<Rightarrow> int" where
  "digit_val c = int (of_char c) - 48"

text \<open>The number a string of decimal digits is read as.\<close>

definition int_of_digits :: "string \<Rightarrow> int" where
  "int_of_digits ds = foldl (\<lambda>a c. 10 * a + digit_val c) 0 ds"

text \<open>
  The interpreter's limit on conversions between \<^verbatim>\<open>int\<close> and \<^verbatim>\<open>str\<close>
  (\<^verbatim>\<open>sys.get_int_max_str_digits()\<close>, 4300 unless configured otherwise).
\<close>

definition int_max_str_digits :: nat where
  "int_max_str_digits = 4300"

text \<open>
  \<^verbatim>\<open>int(digits)\<close> on a string of decimal digits: \<^verbatim>\<open>ValueError\<close> when the string has
  more digits than the limit, leading zeros counted.
\<close>

definition py_int :: "string \<Rightarrow> exn + int" where
  "py_int ds = (if int_max_str_digits < length ds then Inl ValueError else Inr (int_of_digits ds))"

text \<open>
  \<^verbatim>\<open>str(n)\<close> for an integer: \<^verbatim>\<open>ValueError\<close> when the integer has more digits than the
  limit.
\<close>

fun str_nat :: "nat \<Rightarrow> string" where
  "str_nat n = (if n < 10 then [''0123456789'' ! n]
                else str_nat (n div 10) @ [''0123456789'' ! (n mod 10)])"

declare str_nat.simps [simp del]

definition str_int :: "int \<Rightarrow> exn + string" where
  "str_int i =
     (if int_max_str_digits < length (str_nat (nat \<bar>i\<bar>)) then Inl ValueError
      else Inr (if i < 0 then CHR ''-'' # str_nat (nat \<bar>i\<bar>) else str_nat (nat \<bar>i\<bar>)))"

definition py_str :: "'f builtins \<Rightarrow> 'f pyval \<Rightarrow> exn + string" where
  "py_str B v =
     (case v of
        PNone \<Rightarrow> Inr ''None''
      | PBool b \<Rightarrow> Inr (if b then ''True'' else ''False'')
      | PInt i \<Rightarrow> str_int i
      | PStr s \<Rightarrow> Inr s
      | _ \<Rightarrow> str_other B v)"

definition py_truthy :: "'f builtins \<Rightarrow> 'f pyval \<Rightarrow> bool" where
  "py_truthy B v =
     (case v of
        PNone \<Rightarrow> False
      | PBool b \<Rightarrow> b
      | PInt i \<Rightarrow> i \<noteq> 0
      | PFloat x \<Rightarrow> float_bool B x
      | PStr s \<Rightarrow> s \<noteq> []
      | PList xs \<Rightarrow> xs \<noteq> []
      | PDict kvs \<Rightarrow> kvs \<noteq> [])"

text \<open>\<^verbatim>\<open>d.get(k)\<close>: the value at the key, \<^verbatim>\<open>None\<close> when the key is absent.\<close>

definition dict_get :: "(string \<times> 'f pyval) list \<Rightarrow> string \<Rightarrow> 'f pyval" where
  "dict_get d k = (case map_of d k of None \<Rightarrow> PNone | Some v \<Rightarrow> v)"

section \<open>Regular expressions of app.py\<close>

text \<open>
  \<^verbatim>\<open>re.search\<close> for a pattern \<^verbatim>\<open>(\d+)\<close> followed by a rest that no digit can start:
  at each start position, left to right, the group takes the whole run of digits (a
  shorter run would leave a digit where the rest must begin), and \<open>rest\<close> says whether
  the remainder of the pattern matches the text after the run. The result is group 1
  of the leftmost match.
\<close>

fun re_search_digits :: "(string \<Rightarrow> bool) \<Rightarrow> string \<Rightarrow> string option" where
  "re_search_digits rest [] = None"
| "re_search_digits rest (c # cs) =
     (let ds = takeWhile is_digit (c # cs) in
      if ds \<noteq> [] \<and> rest (dropWhile is_digit (c # cs)) then Some ds
      else re_search_digits rest cs)"

text \<open>The rest of \<^verbatim>\<open>(\d+)H\<close> and \<^verbatim>\<open>(\d+)M\<close>: the letter itself.\<close>

definition then_char :: "char \<Rightarrow> string \<Rightarrow> bool" where
  "then_char k r = (case r of [] \<Rightarrow> False | c # _ \<Rightarrow> c = k)"

text \<open>The rest of \<^verbatim>\<open>(\d+)\s*h\<close> and \<^verbatim>\<open>(\d+)\s*m\<close>: white space, then the letter.\<close>

definition then_space_char :: "char \<Rightarrow> string \<Rightarrow> bool" where
  "then_space_char k r = then_char k (dropWhile is_space r)"

text \<open>\<^verbatim>\<open>re.match(r"(\d{4})", s)\<close>: four digits at the start of the text.\<close>

definition re_match_4digits :: "string \<Rightarrow> string option" where
  "re_match_4digits s =
     (if 4 \<le> length s \<and> list_all is_digit (take 4 s) then Some (take 4 s) else None)"

text \<open>\<^verbatim>\<open>int(m.group(1)) if m else 0\<close>\<close>

definition int_of_group :: "string option \<Rightarrow> exn + int" where
  "int_of_group m = (case m of Some g \<Rightarrow> py_int g | None \<Rightarrow> Inr 0)"

section \<open>The parsers\<close>

text \<open>
  \<^verbatim>\<open>_to_int_safe(text)\<close>: \<^verbatim>\<open>None\<close> for \<^verbatim>\<open>None\<close>; otherwise the digits of \<^verbatim>\<open>str(text)\<close>,
  parsed, or \<^verbatim>\<open>None\<close> when there are none. \<^verbatim>\<open>str\<close> and \<^verbatim>\<open>int\<close> may raise.
\<close>

definition to_int_safe :: "'f builtins \<Rightarrow> 'f pyval \<Rightarrow> exn + int option" where
  "to_int_safe B text =
     (if text = PNone then Inr None
      else case py_str B text of
             Inl e \<Rightarrow> Inl e
           | Inr s \<Rightarrow>
               (let digits = filter is_digit s
                in if digits \<noteq> [] then
                     (case py_int digits of Inl e \<Rightarrow> Inl e | Inr n \<Rightarrow> Inr (Some n))
                   else Inr None))"

text \<open>
  \<^verbatim>\<open>_iso8601_duration_to_minutes(iso_str)\<close>. A falsy argument gives \<^verbatim>\<open>None\<close>;
  \<^verbatim>\<open>re.search\<close> raises \<^verbatim>\<open>TypeError\<close> on a truthy argument that is not a string; the
  hours are converted before the minutes.
\<close>

definition iso8601_duration_to_minutes :: "'f builtins \<Rightarrow> 'f pyval \<Rightarrow> exn + int option" where
  "iso8601_duration_to_minutes B iso_str =
     (if \<not> py_truthy B iso_str then Inr None
      else case iso_str of
        PStr s \<Rightarrow>
          (let m_h = re_search_digits (then_char CHR ''H'') s;
               m_m = re_search_digits (then_char CHR ''M'') s
           in case int_of_group m_h of
                Inl e \<Rightarrow> Inl e
              | Inr h \<Rightarrow>
                  (case int_of_group m_m of
                     Inl e \<Rightarrow> Inl e
                   | Inr m \<Rightarrow>
                       (let total = h * 60 + m
                        in Inr (if total > 0 then Some total else None))))
      | _ \<Rightarrow> Inl TypeError)"

section \<open>The page fetcher and extractor\<close>

text \<open>
  What \<^verbatim>\<open>fetch_min_from_imdb\<close> reads from the parsed page: for every
  \<^verbatim>\<open>script\<close> element of type \<^verbatim>\<open>application/ld+json\<close>, in document order, the result of
  \<^verbatim>\<open>json.loads(tag.string or "")\<close> (\<open>None\<close> when it raises), and the text
  \<^verbatim>\<open>get_text(" ", strip=True)\<close> of the element that
  \<^verbatim>\<open>select_one('[data-testid="title-techspec_runtime"] li')\<close> finds (\<open>None\<close> when there is
  no such element).
\<close>

record 'f page =
  ld_json :: "'f pyval option list"
  techspec_runtime :: "string option"

text \<open>
  The outcome of \<^verbatim>\<open>requests.get\<close> followed by \<^verbatim>\<open>raise_for_status\<close>: an exception, or
  the page.
\<close>

datatype 'f http = Failed exn | Response "'f page"

record 'f scraped =
  URL :: string
  Year :: "int option"
  IMDb_rating :: "'f option"
  Number_of_Votes :: "int option"
  Runtime :: "int option"

text \<open>\<^verbatim>\<open>isinstance(d, dict) and d.get("@type") in ("Movie", "CreativeWork")\<close>\<close>

definition is_movie :: "'f pyval \<Rightarrow> bool" where
  "is_movie d =
     (case d of
        PDict kvs \<Rightarrow> dict_get kvs ''@type'' = PStr ''Movie'' \<or> dict_get kvs ''@type'' = PStr ''CreativeWork''
      | _ \<Rightarrow> False)"

text \<open>
  The loop over the script elements. A block that does not parse is skipped; a list gives
  its first matching member; the loop stops at the first block that gives an object.
\<close>

fun scan_ld :: "'f pyval option list \<Rightarrow> (string \<times> 'f pyval) list option" where
  "scan_ld [] = None"
| "scan_ld (None # tags) = scan_ld tags"
| "scan_ld (Some data # tags) =
     (let ld = (case data of
                  PList ds \<Rightarrow> find is_movie ds
                | _ \<Rightarrow> if is_movie data then Some data else None)
      in case ld of
           Some (PDict kvs) \<Rightarrow> Some kvs
         | _ \<Rightarrow> scan_ld tags)"

text \<open>
  The year: \<^verbatim>\<open>str\<close> of a truthy datePublished, four leading digits, \<^verbatim>\<open>int\<close>.
\<close>

definition extract_year :: "'f builtins \<Rightarrow> (string \<times> 'f pyval) list \<Rightarrow> exn + int option" where
  "extract_year B ld =
     (if py_truthy B (dict_get ld ''datePublished'') then
        (case py_str B (dict_get ld ''datePublished'') of
           Inl e \<Rightarrow> Inl e
         | Inr s \<Rightarrow>
             (case re_match_4digits s of
                Some g \<Rightarrow> (case py_int g of Inl e \<Rightarrow> Inl e | Inr y \<Rightarrow> Inr (Some y))
              | None \<Rightarrow> Inr None))
      else Inr None)"

text \<open>
  \<^verbatim>\<open>agg = ld.get("aggregateRating") or {}\<close>, then \<^verbatim>\<open>agg.get\<close>: only a dict has
  \<^verbatim>\<open>get\<close>, any other truthy value raises \<^verbatim>\<open>AttributeError\<close>. \<^verbatim>\<open>float\<close> is applied
  to every rating value other than \<^verbatim>\<open>None\<close>, then \<^verbatim>\<open>_to_int_safe\<close> to the rating
  count, both outside any handler.
\<close>

definition extract_ratings ::
  "'f builtins \<Rightarrow> (string \<times> 'f pyval) list \<Rightarrow> exn + ('f option \<times> int option)" where
  "extract_ratings B ld =
     (case (if py_truthy B (dict_get ld ''aggregateRating'')
            then dict_get ld ''aggregateRating'' else PDict []) of
        PDict agg \<Rightarrow>
          (let rating_value = dict_get agg ''ratingValue'';
               rating_count = dict_get agg ''ratingCount''
           in case (if rating_value = PNone then Inr None
                    else case builtin_float B rating_value of
                           Inl e \<Rightarrow> Inl e
                         | Inr x \<Rightarrow> Inr (Some x)) of
                Inl e \<Rightarrow> Inl e
              | Inr rating \<Rightarrow>
                  (case to_int_safe B rating_count of
                     Inl e \<Rightarrow> Inl e
                   | Inr votes \<Rightarrow> Inr (rating, votes)))
      | _ \<Rightarrow> Inl AttributeError)"

text \<open>
  The fallback on the runtime element of the page (text such as \<^verbatim>\<open>2h 10m\<close>); the hours
  are converted before the minutes, outside any handler.
\<close>

definition runtime_fallback :: "string option \<Rightarrow> exn + int option" where
  "runtime_fallback runtime_tag =
     (case runtime_tag of
        None \<Rightarrow> Inr None
      | Some txt \<Rightarrow>
          (let h = re_search_digits (then_space_char CHR ''h'') txt;
               m = re_search_digits (then_space_char CHR ''m'') txt
           in case int_of_group h of
                Inl e \<Rightarrow> Inl e
              | Inr hours \<Rightarrow>
                  (case int_of_group m of
                     Inl e \<Rightarrow> Inl e
                   | Inr minutes \<Rightarrow>
                       (let runtime_min = hours * 60 + minutes
                        in Inr (if runtime_min = 0 then None else Some runtime_min)))))"

text \<open>
  \<^verbatim>\<open>fetch_min_from_imdb\<close>, in the order of the source: the request, the scan for the
  object, the year, the ratings, the runtime, the fallback, the result.
\<close>

definition fetch_min_from_imdb :: "'f builtins \<Rightarrow> string \<Rightarrow> 'f http \<Rightarrow> exn + 'f scraped" where
  "fetch_min_from_imdb B url r =
     (case r of
        Failed e \<Rightarrow> Inl e
      | Response soup \<Rightarrow>
          (case (case scan_ld (ld_json soup) of
                   None \<Rightarrow> Inr (None, None, None, None)
                 | Some ld \<Rightarrow>
                     (case extract_year B ld of
                        Inl e \<Rightarrow> Inl e
                      | Inr year \<Rightarrow>
                          (case extract_ratings B ld of
                             Inl e \<Rightarrow> Inl e
                           | Inr (rating_value, rating_count) \<Rightarrow>
                               (case iso8601_duration_to_minutes B (dict_get ld ''duration'') of
                                  Inl e \<Rightarrow> Inl e
                                | Inr runtime_min \<Rightarrow>
                                    Inr (year, rating_value, rating_count, runtime_min))))) of
             Inl e \<Rightarrow> Inl e
           | Inr (year, rating_value, rating_count, runtime_min) \<Rightarrow>
               (case (if runtime_min = None then runtime_fallback (techspec_runtime soup)
                      else Inr runtime_min) of
                  Inl e \<Rightarrow> Inl e
                | Inr runtime \<Rightarrow>
                    Inr \<lparr>URL = url, Year = year, IMDb_rating = rating_value,
                         Number_of_Votes = rating_count, Runtime = runtime\<rparr>)))"

section \<open>The record store\<close>

text \<open>
  A document of the Population collection has an integer \<^verbatim>\<open>ID\<close> and a string
  \<^verbatim>\<open>Movie\<close> (the data model of the collection); \<open>extra\<close> holds whatever other fields it
  has. A document of the Data-Set collection is the list of its fields; the
  \<^verbatim>\<open>_id\<close> the server assigns is not represented. A collection is the list of its
  documents in the server's natural order, new documents last.
\<close>

record pop_doc =
  ID :: int
  Movie :: string
  extra :: "(string \<times> string) list"

datatype message =
    CouldNotReach exn | DeleteFailed exn | SamplingFailed exn | BulkDeleteFailed exn
  | FailedToSave exn | SavedToDataSet | DeletedMovies nat

text \<open>
  The globals \<^verbatim>\<open>client\<close> and \<^verbatim>\<open>col\<close> (with \<^verbatim>\<open>db\<close> and \<^verbatim>\<open>ds_col\<close>, which are bound
  together with it) as flags "is not None", the two collections on the server, what
  \<^verbatim>\<open>st.error\<close> and \<^verbatim>\<open>st.success\<close> have shown, and the entry of the cache of
  \<^verbatim>\<open>load_df\<close>: the time it was stored, the rows returned, and the messages shown while
  they were computed.
\<close>

record 'f world =
  client :: bool
  col :: bool
  population :: "pop_doc list"
  data_set :: "(string \<times> 'f pyval) list list"
  shown :: "message list"
  cache :: "(nat \<times> (int \<times> string) list \<times> message list) option"

text \<open>
  What the backend does during one operation: whether \<^verbatim>\<open>MongoClient(...)\<close>, the ping
  and the collection command raise. A command may raise after the server has applied
  part of it: \<open>command_raises\<close> gives the exception and the number of matching documents
  the server had changed by then (0 when it had changed none).
\<close>

record backend =
  client_raises :: "exn option"
  ping_raises :: "exn option"
  command_raises :: "(exn \<times> nat) option"

datatype 'a outcome = Raise exn | Return 'a

text \<open>
  \<^verbatim>\<open>ensure_connection\<close>: \<^verbatim>\<open>client\<close> is assigned before the ping, the collections
  after it.
\<close>

definition ensure_connection :: "backend \<Rightarrow> 'f world \<Rightarrow> exn option \<times> 'f world" where
  "ensure_connection bk w =
     (if client w then (None, w)
      else case client_raises bk of
             Some e \<Rightarrow> (Some e, w)
           | None \<Rightarrow>
               (case ping_raises bk of
                  Some e \<Rightarrow> (Some e, w\<lparr>client := True\<rparr>)
                | None \<Rightarrow> (None, w\<lparr>client := True, col := True\<rparr>)))"

text \<open>
  \<^verbatim>\<open>ensure_connection()\<close> followed by a method call on \<^verbatim>\<open>col\<close> or \<^verbatim>\<open>ds_col\<close>: the
  exception raised, if any, with the number of matching documents the server had changed
  when it was raised, and the globals after the connection. A failed connection and a
  method call on an unbound collection (\<^verbatim>\<open>AttributeError\<close>) never reach the server.
\<close>

definition col_command :: "backend \<Rightarrow> 'f world \<Rightarrow> (exn \<times> nat) option \<times> 'f world" where
  "col_command bk w =
     (case ensure_connection bk w of
        (Some e, w1) \<Rightarrow> (Some (e, 0), w1)
      | (None, w1) \<Rightarrow> (if \<not> col w1 then Some (AttributeError, 0) else command_raises bk, w1))"

text \<open>\<^verbatim>\<open>try: body except <classes> as e: handler\<close>\<close>

definition try_except ::
  "'a outcome \<times> 'w \<Rightarrow> (exn \<Rightarrow> bool) \<Rightarrow> (exn \<Rightarrow> 'w \<Rightarrow> 'a outcome \<times> 'w) \<Rightarrow> 'a outcome \<times> 'w" where
  "try_except body caught handler =
     (case body of
        (Raise e, w) \<Rightarrow> if caught e then handler e w else (Raise e, w)
      | (Return x, w) \<Rightarrow> (Return x, w))"

definition Exception :: "exn \<Rightarrow> bool" where
  "Exception e = True"

text \<open>
  The body of \<^verbatim>\<open>load_df\<close>. The data frame is the list of its rows (ID, Movie);
  \<^verbatim>\<open>sort("ID", 1)\<close> is ascending. A read changes no document.
\<close>

definition load_df_body :: "backend \<Rightarrow> 'f world \<Rightarrow> (int \<times> string) list outcome \<times> 'f world" where
  "load_df_body bk w =
     try_except
       (case col_command bk w of
          (Some (e, n), w1) \<Rightarrow> (Raise e, w1)
        | (None, w1) \<Rightarrow>
            (Return (map (\<lambda>d. (ID d, Movie d)) (sort_key ID (population w1))), w1))
       (\<lambda>e. e = ServerSelectionTimeoutError \<or> e = ConnectionFailure \<or> e = ConfigurationError)
       (\<lambda>e w1. (Return [], w1\<lparr>shown := shown w1 @ [CouldNotReach e]\<rparr>))"

text \<open>
  \<^verbatim>\<open>@st.cache_data(ttl=...)\<close> around a function without arguments, called at time
  \<open>now\<close> (in seconds). While the entry is younger than \<open>ttl\<close> the function is not run:
  the stored rows are returned and the stored messages are shown again. Otherwise the
  function runs, and what it returns is stored with the messages it has shown; an
  exception stores nothing.
\<close>

definition st_cache_data ::
  "nat \<Rightarrow> nat \<Rightarrow> ('f world \<Rightarrow> (int \<times> string) list outcome \<times> 'f world) \<Rightarrow>
   'f world \<Rightarrow> (int \<times> string) list outcome \<times> 'f world" where
  "st_cache_data ttl now body w =
     (case (case cache w of
              Some (stored, rows, msgs) \<Rightarrow> if now < stored + ttl then Some (rows, msgs) else None
            | None \<Rightarrow> None) of
        Some (rows, msgs) \<Rightarrow> (Return rows, w\<lparr>shown := shown w @ msgs\<rparr>)
      | None \<Rightarrow>
          (case body w of
             (Return rows, w1) \<Rightarrow>
               (Return rows, w1\<lparr>cache := Some (now, rows, drop (length (shown w)) (shown w1))\<rparr>)
           | (Raise e, w1) \<Rightarrow> (Raise e, w1)))"

text \<open>\<^verbatim>\<open>load_df\<close>, as decorated with \<^verbatim>\<open>@st.cache_data(ttl=10)\<close>.\<close>

definition load_df ::
  "backend \<Rightarrow> nat \<Rightarrow> 'f world \<Rightarrow> (int \<times> string) list outcome \<times> 'f world" where
  "load_df bk now w = st_cache_data 10 now (load_df_body bk) w"

text \<open>\<^verbatim>\<open>st.cache_data.clear()\<close>\<close>

definition cache_clear :: "'f world \<Rightarrow> 'f world" where
  "cache_clear w = w\<lparr>cache := None\<rparr>"

text \<open>
  \<^verbatim>\<open>delete_one\<close> removes the first document that matches. What a delete that raises
  leaves behind: the first \<open>n\<close> matching documents are gone.
\<close>

fun remove_first :: "('a \<Rightarrow> bool) \<Rightarrow> 'a list \<Rightarrow> 'a list" where
  "remove_first P [] = []"
| "remove_first P (x # xs) = (if P x then xs else x # remove_first P xs)"

fun remove_matching :: "nat \<Rightarrow> ('a \<Rightarrow> bool) \<Rightarrow> 'a list \<Rightarrow> 'a list" where
  "remove_matching 0 P xs = xs"
| "remove_matching (Suc n) P [] = []"
| "remove_matching (Suc n) P (x # xs) =
     (if P x then remove_matching n P xs else x # remove_matching (Suc n) P xs)"

definition delete_one_by_id :: "backend \<Rightarrow> int \<Rightarrow> 'f world \<Rightarrow> nat outcome \<times> 'f world" where
  "delete_one_by_id bk movie_id w =
     try_except
       (case col_command bk w of
          (Some (e, n), w1) \<Rightarrow>
            (Raise e, w1\<lparr>population :=
                           remove_matching (min n 1) (\<lambda>d. ID d = movie_id) (population w1)\<rparr>)
        | (None, w1) \<Rightarrow>
            (let kept = remove_first (\<lambda>d. ID d = movie_id) (population w1)
             in (Return (length (population w1) - length kept), w1\<lparr>population := kept\<rparr>)))
       Exception
       (\<lambda>e w1. (Return 0, w1\<lparr>shown := shown w1 @ [DeleteFailed e]\<rparr>))"

text \<open>
  \<^verbatim>\<open>$sample\<close> of size \<open>k\<close>: \<open>k\<close> different documents, or all of them when the collection
  has fewer. The server's random choice is the list \<open>draw\<close> of positions; positions
  outside the collection and repetitions of a position are passed over, and the positions
  in natural order stand in when \<open>draw\<close> runs out.
\<close>

definition mongo_sample :: "nat list \<Rightarrow> nat \<Rightarrow> 'a list \<Rightarrow> 'a list" where
  "mongo_sample draw k docs =
     map (\<lambda>i. docs ! i)
       (take k (rev (remdups (rev (filter (\<lambda>i. i < length docs) draw @ [0..<length docs])))))"

definition sample_docs ::
  "backend \<Rightarrow> nat list \<Rightarrow> nat \<Rightarrow> 'f world \<Rightarrow> (int \<times> string) list outcome \<times> 'f world" where
  "sample_docs bk draw k w =
     try_except
       (case col_command bk w of
          (Some (e, n), w1) \<Rightarrow> (Raise e, w1)
        | (None, w1) \<Rightarrow>
            (Return (map (\<lambda>d. (ID d, Movie d)) (mongo_sample draw k (population w1))), w1))
       Exception
       (\<lambda>e w1. (Return [], w1\<lparr>shown := shown w1 @ [SamplingFailed e]\<rparr>))"

definition delete_many_by_ids :: "backend \<Rightarrow> int list \<Rightarrow> 'f world \<Rightarrow> nat outcome \<times> 'f world" where
  "delete_many_by_ids bk ids w =
     try_except
       (case col_command bk w of
          (Some (e, n), w1) \<Rightarrow>
            (Raise e, w1\<lparr>population :=
                           remove_matching n (\<lambda>d. ID d \<in> set ids) (population w1)\<rparr>)
        | (None, w1) \<Rightarrow>
            (let kept = filter (\<lambda>d. ID d \<notin> set ids) (population w1)
             in (Return (length (population w1) - length kept), w1\<lparr>population := kept\<rparr>)))
       Exception
       (\<lambda>e w1. (Return 0, w1\<lparr>shown := shown w1 @ [BulkDeleteFailed e]\<rparr>))"

text \<open>
  The handler of the button "Draw and DELETE k at random", up to its success message:
  the sample, the IDs of the sampled rows, the bulk delete, the message. \<open>bk1\<close> and \<open>bk2\<close>
  are the backend's behaviour during the two operations.
\<close>

definition draw_and_delete ::
  "backend \<Rightarrow> backend \<Rightarrow> nat list \<Rightarrow> nat \<Rightarrow> 'f world \<Rightarrow> unit outcome \<times> 'f world" where
  "draw_and_delete bk1 bk2 draw k w =
     (case sample_docs bk1 draw k w of
        (Raise e, w1) \<Rightarrow> (Raise e, w1)
      | (Return sdocs, w1) \<Rightarrow>
          (let ids_to_delete = map fst sdocs
           in case delete_many_by_ids bk2 ids_to_delete w1 of
                (Raise e, w2) \<Rightarrow> (Raise e, w2)
              | (Return deleted, w2) \<Rightarrow>
                  (Return (), w2\<lparr>shown := shown w2 @ [DeletedMovies deleted]\<rparr>)))"

text \<open>The whole handler: after the message the cache is cleared and the script reruns.\<close>

definition draw_and_delete_rerun ::
  "backend \<Rightarrow> backend \<Rightarrow> nat list \<Rightarrow> nat \<Rightarrow> 'f world \<Rightarrow> unit outcome \<times> 'f world" where
  "draw_and_delete_rerun bk1 bk2 draw k w =
     (case draw_and_delete bk1 bk2 draw k w of
        (Raise e, w1) \<Rightarrow> (Raise e, w1)
      | (Return u, w1) \<Rightarrow> (Return u, cache_clear w1))"

section \<open>Saving to the Data-Set collection\<close>

text \<open>
  \<^verbatim>\<open>update_one(filter, {"$set": upd}, upsert=True)\<close>. A filter field matches a
  document that holds an equal value, and \<^verbatim>\<open>None\<close> also matches a missing field. The
  first matching document in natural order is updated; when there is none, a document
  made of the filter's fields and the fields to set is added.
\<close>

definition matches :: "(string \<times> 'f pyval) list \<Rightarrow> (string \<times> 'f pyval) list \<Rightarrow> bool" where
  "matches flt d = list_all (\<lambda>(k, v). dict_get d k = v) flt"

fun set_field :: "string \<Rightarrow> 'v \<Rightarrow> (string \<times> 'v) list \<Rightarrow> (string \<times> 'v) list" where
  "set_field k v [] = [(k, v)]"
| "set_field k v ((k', v') # d) = (if k' = k then (k, v) # d else (k', v') # set_field k v d)"

fun set_fields :: "(string \<times> 'v) list \<Rightarrow> (string \<times> 'v) list \<Rightarrow> (string \<times> 'v) list" where
  "set_fields d [] = d"
| "set_fields d ((k, v) # kvs) = set_fields (set_field k v d) kvs"

fun update_one ::
  "(string \<times> 'f pyval) list \<Rightarrow> (string \<times> 'f pyval) list \<Rightarrow>
   (string \<times> 'f pyval) list list \<Rightarrow> (string \<times> 'f pyval) list list" where
  "update_one flt upd [] = [set_fields flt upd]"
| "update_one flt upd (d # ds) =
     (if matches flt d then set_fields d upd # ds else d # update_one flt upd ds)"

text \<open>
  \<^verbatim>\<open>save_movie_record(doc)\<close>: no handler; the result says whether an id came back. An
  update that raises after the server applied it leaves the document written.
\<close>

definition save_movie_record ::
  "backend \<Rightarrow> (string \<times> 'f pyval) list \<Rightarrow> 'f world \<Rightarrow> bool outcome \<times> 'f world" where
  "save_movie_record bk doc w =
     (case col_command bk w of
        (Some (e, n), w1) \<Rightarrow>
          (Raise e,
           if 0 < n
           then w1\<lparr>data_set := update_one [(''URL'', dict_get doc ''URL'')] doc (data_set w1)\<rparr>
           else w1)
      | (None, w1) \<Rightarrow>
          (let flt = [(''URL'', dict_get doc ''URL'')]
           in (Return (\<not> list_ex (matches flt) (data_set w1)),
               w1\<lparr>data_set := update_one flt doc (data_set w1)\<rparr>)))"

text \<open>The widgets the save handler reads, and the fetched document of the session.\<close>

record 'f form =
  url :: string
  mv :: string
  genre_text :: string
  dir_text :: string
  writer_text :: string
  country_text :: string
  gross_num :: nat
  fetched :: "'f scraped option"

text \<open>\<^verbatim>\<open>s.split(",")\<close> and \<^verbatim>\<open>x.strip()\<close>\<close>

fun split_char :: "char \<Rightarrow> string \<Rightarrow> string list" where
  "split_char k [] = [[]]"
| "split_char k (c # cs) =
     (if c = k then [] # split_char k cs
      else case split_char k cs of
             p # ps \<Rightarrow> (c # p) # ps
           | [] \<Rightarrow> [[c]])"

definition strip :: "string \<Rightarrow> string" where
  "strip s = rev (dropWhile is_space (rev (dropWhile is_space s)))"

definition to_list :: "string \<Rightarrow> string list" where
  "to_list s = (if s \<noteq> [] then [strip x. x \<leftarrow> split_char CHR '','' s, strip x \<noteq> []] else [])"

definition opt_int :: "int option \<Rightarrow> 'f pyval" where
  "opt_int x = (case x of None \<Rightarrow> PNone | Some i \<Rightarrow> PInt i)"

definition opt_float :: "'f option \<Rightarrow> 'f pyval" where
  "opt_float x = (case x of None \<Rightarrow> PNone | Some r \<Rightarrow> PFloat r)"

definition doc_out :: "'f form \<Rightarrow> (string \<times> 'f pyval) list" where
  "doc_out f =
     [(''URL'', if url f \<noteq> [] then PStr (strip (url f)) else PNone),
      (''Movie'', if mv f \<noteq> [] then PStr (mv f) else PNone),
      (''Genre'', PList (map PStr (to_list (genre_text f)))),
      (''Year'', case fetched f of Some d \<Rightarrow> opt_int (Year d) | None \<Rightarrow> PNone),
      (''IMDb rating'', case fetched f of Some d \<Rightarrow> opt_float (IMDb_rating d) | None \<Rightarrow> PNone),
      (''Director'', PList (map PStr (to_list (dir_text f)))),
      (''Number of Votes'', case fetched f of Some d \<Rightarrow> opt_int (Number_of_Votes d) | None \<Rightarrow> PNone),
      (''Writer'', PList (map PStr (to_list (writer_text f)))),
      (''Country'', PList (map PStr (to_list (country_text f)))),
      (''Runtime'', case fetched f of Some d \<Rightarrow> opt_int (Runtime d) | None \<Rightarrow> PNone),
      (''Gross Profit'', if gross_num f \<noteq> 0 then PInt (int (gross_num f)) else PNone)]"

text \<open>
  \<^verbatim>\<open>key = {"URL": doc_out["URL"]} if doc_out["URL"] else {"Movie": ..., "Year": ...}\<close>:
  the test is the truth value of the URL, so an empty string takes the second branch.
\<close>

definition save_key :: "'f builtins \<Rightarrow> (string \<times> 'f pyval) list \<Rightarrow> (string \<times> 'f pyval) list" where
  "save_key B d =
     (if py_truthy B (dict_get d ''URL'') then [(''URL'', dict_get d ''URL'')]
      else [(''Movie'', dict_get d ''Movie''), (''Year'', dict_get d ''Year'')])"

text \<open>
  What the save writes to the collection, and the handler of the save button. An update
  that raises after the server applied it leaves the document written.
\<close>

definition upsert :: "'f builtins \<Rightarrow> 'f form \<Rightarrow>
    (string \<times> 'f pyval) list list \<Rightarrow> (string \<times> 'f pyval) list list" where
  "upsert B f coll = update_one (save_key B (doc_out f)) (doc_out f) coll"

definition save_to_data_set ::
  "'f builtins \<Rightarrow> backend \<Rightarrow> 'f form \<Rightarrow> 'f world \<Rightarrow> unit outcome \<times> 'f world" where
  "save_to_data_set B bk f w =
     try_except
       (case col_command bk w of
          (Some (e, n), w1) \<Rightarrow>
            (Raise e, if 0 < n then w1\<lparr>data_set := upsert B f (data_set w1)\<rparr> else w1)
        | (None, w1) \<Rightarrow>
            (Return (), w1\<lparr>data_set := upsert B f (data_set w1),
                            shown := shown w1 @ [SavedToDataSet]\<rparr>))
       Exception
       (\<lambda>e w1. (Return (), w1\<lparr>shown := shown w1 @ [FailedToSave e]\<rparr>))"

section \<open>Reference definitions for the parsers\<close>

text \<open>The value of a string of decimal digits, by position.\<close>

definition decimal_value :: "string \<Rightarrow> int" where
  "decimal_value ds = (\<Sum>i<length ds. digit_val (ds ! i) * 10 ^ (length ds - Suc i))"

text \<open>
  The count immediately before a marker letter: reading the text from the left and
  keeping the digits read since the last character that was not a digit, the first
  occurrence of the marker right after at least one digit ends the reading, and the
  digits kept are the count. A text without such an occurrence has no count.
\<close>

fun scan_count :: "char \<Rightarrow> string \<Rightarrow> string \<Rightarrow> string option" where
  "scan_count k run [] = None"
| "scan_count k run (c # cs) =
     (if is_digit c then scan_count k (run @ [c]) cs
      else if c = k \<and> run \<noteq> [] then Some run
      else scan_count k [] cs)"

text \<open>A missing component counts as zero, and has no digits.\<close>

definition count_before :: "char \<Rightarrow> string \<Rightarrow> int" where
  "count_before k s = (case scan_count k [] s of None \<Rightarrow> 0 | Some ds \<Rightarrow> decimal_value ds)"

definition count_digits :: "char \<Rightarrow> string \<Rightarrow> nat" where
  "count_digits k s = (case scan_count k [] s of None \<Rightarrow> 0 | Some ds \<Rightarrow> length ds)"

text \<open>A matched group that \<^verbatim>\<open>int\<close> refuses: more than 4300 digits.\<close>

definition group_too_long :: "string option \<Rightarrow> bool" where
  "group_too_long m = (case m of Some g \<Rightarrow> 4300 < length g | None \<Rightarrow> False)"

section \<open>Reference definitions for the extractor\<close>

text \<open>
  A parsed block holds an object of type Movie or CreativeWork, at the top level or as a
  member of a top-level list.
\<close>

definition has_movie :: "'f pyval \<Rightarrow> bool" where
  "has_movie data = (case data of PList ds \<Rightarrow> list_ex is_movie ds | _ \<Rightarrow> is_movie data)"

text \<open>A block that gives no object: one that does not parse, or one that holds none.\<close>

definition no_movie_block :: "'f pyval option \<Rightarrow> bool" where
  "no_movie_block b = (case b of None \<Rightarrow> True | Some data \<Rightarrow> \<not> has_movie data)"



text \<open>
  The fixture of the extraction test: a structured-data object with the four fields, and
  built-ins for it. A float is written as its \<^verbatim>\<open>repr\<close>; \<open>builtin_float\<close> stands in for
  \<^verbatim>\<open>float\<close> on the two texts the examples pass to it: it accepts \<^verbatim>\<open>8.6\<close> and rejects
  \<^verbatim>\<open>N/A\<close> with \<^verbatim>\<open>ValueError\<close>.
\<close>

definition fixture_builtins :: "string builtins" where
  "fixture_builtins =
     \<lparr>builtin_float = (\<lambda>v. if v = PStr ''8.6'' then Inr ''8.6'' else Inl ValueError),
      float_bool = (\<lambda>x. x \<noteq> ''0.0'' \<and> x \<noteq> ''-0.0''),
      str_other = (\<lambda>v. case v of PFloat x \<Rightarrow> Inr x | _ \<Rightarrow> Inr [])\<rparr>"

definition fixture_fields :: "(string \<times> string pyval) list" where
  "fixture_fields =
     [(''name'', PStr ''Interstellar''),
      (''datePublished'', PStr ''2014-11-07''),
      (''aggregateRating'',
         PDict [(''@type'', PStr ''AggregateRating''),
                (''ratingValue'', PStr ''8.6''),
                (''ratingCount'', PStr ''2,100,000'')]),
      (''duration'', PStr ''PT2H49M'')]"

definition fixture_ld :: "(string \<times> string pyval) list" where
  "fixture_ld = (''@type'', PStr ''Movie'') # fixture_fields"

definition fixture_creative_work :: "(string \<times> string pyval) list" where
  "fixture_creative_work = (''@type'', PStr ''CreativeWork'') # fixture_fields"

section \<open>Reference definitions for the record store\<close>

text \<open>A backend on which nothing raises.\<close>

definition healthy :: "backend" where
  "healthy = \<lparr>client_raises = None, ping_raises = None, command_raises = None\<rparr>"

text \<open>The cache of \<^verbatim>\<open>load_df\<close> holds an entry younger than \<open>ttl\<close> seconds.\<close>

definition cache_fresh :: "nat \<Rightarrow> nat \<Rightarrow> 'f world \<Rightarrow> bool" where
  "cache_fresh ttl now w =
     (case cache w of Some (stored, rows, msgs) \<Rightarrow> now < stored + ttl | None \<Rightarrow> False)"

text \<open>A small population, before the first connection and with an empty cache.\<close>

definition example_world :: "string world" where
  "example_world =
     \<lparr>client = False, col = False,
      population = [\<lparr>ID = 3, Movie = ''Volver'', extra = [(''Year'', ''2006'')]\<rparr>,
                    \<lparr>ID = 1, Movie = ''Abre los ojos'', extra = []\<rparr>,
                    \<lparr>ID = 2, Movie = ''Tesis'', extra = []\<rparr>],
      data_set = [], shown = [], cache = None\<rparr>"

section \<open>Reference definitions for the Data-Set collection\<close>

text \<open>The fields of a DataSetRecord, under the names the save handler writes.\<close>

definition dataset_fields :: "string list" where
  "dataset_fields = [''URL'', ''Movie'', ''Genre'', ''Year'', ''IMDb rating'', ''Director'',
                     ''Number of Votes'', ''Writer'', ''Country'', ''Runtime'', ''Gross Profit'']"

text \<open>The collection that a sequence of saves builds from the empty collection.\<close>

definition saves :: "'f builtins \<Rightarrow> 'f form list \<Rightarrow> (string \<times> 'f pyval) list list" where
  "saves B fs = foldl (\<lambda>coll f. upsert B f coll) [] fs"

text \<open>A stored document holds the URL \<open>x\<close>.\<close>

definition has_url :: "string \<Rightarrow> (string \<times> 'f pyval) list \<Rightarrow> bool" where
  "has_url x d = (dict_get d ''URL'' = PStr x)"

text \<open>A filled form, with a fetched document in the session.\<close>

definition example_form :: "string form" where
  "example_form =
     \<lparr>url = ''https://www.imdb.com/title/tt0125659/'', mv = ''Open Your Eyes'',
      genre_text = ''drama, thriller'', dir_text = ''Alejandro Amenabar'', writer_text = [],
      country_text = ''Spain'', gross_num = 0,
      fetched = Some \<lparr>URL = ''https://www.imdb.com/title/tt0125659/'', Year = Some 1997,
                         IMDb_rating = Some ''7.7'', Number_of_Votes = Some 70000,
                         Runtime = Some 119\<rparr>\<rparr>"

text \<open>Every field of the filter is among the fields to set, with the same value.\<close>

definition agrees :: "(string \<times> 'v) list \<Rightarrow> (string \<times> 'v) list \<Rightarrow> bool" where
  "agrees flt upd = list_all (\<lambda>(k, v). map_of upd k = Some v) flt"

section \<open>Properties of the parsers\<close>

lemma int_of_digits_snoc: "int_of_digits (ds @ [d]) = 10 * int_of_digits ds + digit_val d"
  by (simp add: int_of_digits_def)

lemma decimal_value_snoc: "decimal_value (ds @ [d]) = 10 * decimal_value ds + digit_val d"
proof -
  have "(\<Sum>i<length ds. digit_val ((ds @ [d]) ! i) * 10 ^ (Suc (length ds) - Suc i))
        = (\<Sum>i<length ds. 10 * (digit_val (ds ! i) * 10 ^ (length ds - Suc i)))"
  proof (rule sum.cong)
    fix i assume "i \<in> {..<length ds}"
    then have "length ds - i = Suc (length ds - Suc i)" by auto
    then show "digit_val ((ds @ [d]) ! i) * 10 ^ (Suc (length ds) - Suc i)
               = 10 * (digit_val (ds ! i) * 10 ^ (length ds - Suc i))"
      using \<open>i \<in> {..<length ds}\<close> by (simp add: nth_append)
  qed simp
  then show ?thesis
    by (simp add: decimal_value_def sum_distrib_left)
qed

lemma int_of_digits_decimal: "int_of_digits ds = decimal_value ds"
proof (induction ds rule: rev_induct)
  case Nil
  show ?case by (simp add: int_of_digits_def decimal_value_def)
next
  case (snoc d ds)
  then show ?case by (simp add: int_of_digits_snoc decimal_value_snoc)
qed

lemma digit_val_nonneg: "is_digit c \<Longrightarrow> 0 \<le> digit_val c"
  by (auto simp: is_digit_def digit_val_def)

lemma int_of_digits_nonneg: "list_all is_digit ds \<Longrightarrow> 0 \<le> int_of_digits ds"
proof (induction ds rule: rev_induct)
  case Nil
  show ?case by (simp add: int_of_digits_def)
next
  case (snoc d ds)
  then show ?case using digit_val_nonneg [of d] by (simp add: int_of_digits_snoc)
qed

lemma list_all_filter_is_digit: "list_all is_digit (filter is_digit s)"
  by (induction s) auto

text \<open>\<^verbatim>\<open>int\<close> and \<^verbatim>\<open>str\<close> at the limit of 4300 digits.\<close>

lemma py_int_eq:
  "py_int ds = (if 4300 < length ds then Inl ValueError else Inr (decimal_value ds))"
  by (simp add: py_int_def int_max_str_digits_def int_of_digits_decimal)

lemma int_of_group_eq:
  "int_of_group m =
     (if group_too_long m then Inl ValueError
      else Inr (case m of Some g \<Rightarrow> decimal_value g | None \<Rightarrow> 0))"
  by (cases m) (simp_all add: int_of_group_def group_too_long_def py_int_eq)

lemma str_nat_nonempty: "str_nat n \<noteq> []"
  by (subst str_nat.simps) simp

lemma length_str_nat: "10 ^ k \<le> n \<Longrightarrow> k < length (str_nat n)"
proof (induction k arbitrary: n)
  case 0
  then show ?case using str_nat_nonempty [of n] by (cases "str_nat n") simp_all
next
  case (Suc k)
  have "(1::nat) \<le> 10 ^ k" by simp
  then have "(10::nat) \<le> 10 * 10 ^ k" by linarith
  moreover have "10 * 10 ^ k \<le> n" using Suc.prems by simp
  ultimately have ge: "10 \<le> n" by (rule le_trans)
  have "10 ^ k \<le> n div 10" using Suc.prems by (simp add: less_eq_div_iff_mult_less_eq mult.commute)
  then have "k < length (str_nat (n div 10))" by (rule Suc.IH)
  moreover have "str_nat n = str_nat (n div 10) @ [''0123456789'' ! (n mod 10)]"
    using ge by (subst str_nat.simps) simp
  ultimately show ?case by simp
qed

lemma str_int_too_long: "4300 \<le> k \<Longrightarrow> str_int (- (10 ^ k)) = Inl ValueError"
proof -
  assume k: "4300 \<le> k"
  have "\<bar>- (10 ^ k) :: int\<bar> = 10 ^ k" by simp
  moreover have "nat ((10::int) ^ k) = 10 ^ k" by (simp add: nat_power_eq)
  ultimately have "nat \<bar>- (10 ^ k) :: int\<bar> = 10 ^ k" by (simp only:)
  moreover have "k < length (str_nat (10 ^ k))" by (rule length_str_nat) simp
  ultimately have "k < length (str_nat (nat \<bar>- (10 ^ k) :: int\<bar>))" by (simp only:)
  then have "int_max_str_digits < length (str_nat (nat \<bar>- (10 ^ k) :: int\<bar>))"
    using k by (simp add: int_max_str_digits_def)
  then show ?thesis by (simp only: str_int_def if_True)
qed

lemma then_char_simps [simp]:
  "then_char k [] = False" "then_char k (c # cs) = (c = k)"
  by (simp_all add: then_char_def)

text \<open>A start position inside a run of digits fails where the start of the run fails.\<close>

lemma re_search_skip_run:
  "\<not> rest (dropWhile is_digit s) \<Longrightarrow>
     re_search_digits rest s = re_search_digits rest (dropWhile is_digit s)"
  by (induction s) auto

lemma re_search_unfold:
  "re_search_digits rest s =
     (if takeWhile is_digit s \<noteq> [] \<and> rest (dropWhile is_digit s) then Some (takeWhile is_digit s)
      else re_search_digits rest (dropWhile is_digit s))"
proof (cases s)
  case Nil
  then show ?thesis by simp
next
  case (Cons c cs)
  show ?thesis
  proof (cases "rest (dropWhile is_digit s)")
    case True
    then show ?thesis using Cons by (auto simp: Let_def)
  next
    case False
    then show ?thesis using re_search_skip_run [of rest s] by simp
  qed
qed

lemma re_search_digits_all_digits:
  "re_search_digits rest s = Some ds \<Longrightarrow> list_all is_digit ds"
proof (induction s)
  case Nil
  then show ?case by simp
next
  case (Cons c cs)
  then show ?case
    by (auto simp: Let_def list_all_iff split: if_splits dest: set_takeWhileD)
qed

lemma scan_count_search:
  "\<not> is_digit k \<Longrightarrow> list_all is_digit run \<Longrightarrow>
   scan_count k run s =
     (if run @ takeWhile is_digit s \<noteq> [] \<and> then_char k (dropWhile is_digit s)
      then Some (run @ takeWhile is_digit s)
      else re_search_digits (then_char k) (dropWhile is_digit s))"
proof (induction s arbitrary: run)
  case Nil
  then show ?case by simp
next
  case (Cons c cs)
  show ?case
  proof (cases "is_digit c")
    case True
    then show ?thesis using Cons.IH [of "run @ [c]"] Cons.prems by simp
  next
    case False
    have "scan_count k [] cs = re_search_digits (then_char k) cs"
      using Cons.IH [of "[]"] Cons.prems(1) re_search_unfold [of "then_char k" cs] by simp
    then show ?thesis using False by (auto simp: Let_def)
  qed
qed

text \<open>The regular-expression search finds the count immediately before the marker.\<close>

lemma re_search_is_scan:
  "\<not> is_digit k \<Longrightarrow> re_search_digits (then_char k) s = scan_count k [] s"
  using scan_count_search [of k "[]" s] re_search_unfold [of "then_char k" s] by simp

text \<open>
  What the reading gives: the run of digits right before the first marker that directly
  follows a digit, and nothing when no marker directly follows a digit.
\<close>

lemma scan_count_run:
  "list_all is_digit ds \<Longrightarrow> \<not> is_digit k \<Longrightarrow> run @ ds \<noteq> [] \<Longrightarrow>
   scan_count k run (ds @ k # post) = Some (run @ ds)"
proof (induction ds arbitrary: run)
  case Nil
  then show ?case by simp
next
  case (Cons d ds)
  then show ?case using Cons.IH [of "run @ [d]"] by simp
qed

lemma scan_count_found:
  assumes k: "\<not> is_digit k" and ds: "list_all is_digit ds" "ds \<noteq> []"
  shows "list_all is_digit run \<Longrightarrow> pre = [] \<or> \<not> is_digit (last pre) \<Longrightarrow>
         \<not> (\<exists>u a v. run @ pre = u @ a # k # v \<and> is_digit a) \<Longrightarrow>
         scan_count k run (pre @ ds @ k # post) = Some (if pre = [] then run @ ds else ds)"
proof (induction pre arbitrary: run)
  case Nil
  then show ?case using scan_count_run [OF ds(1) k, of run post] ds(2) by simp
next
  case (Cons c pre)
  show ?case
  proof (cases "is_digit c")
    case True
    then have ne: "pre \<noteq> []" using Cons.prems(2) by auto
    then have "pre = [] \<or> \<not> is_digit (last pre)" using Cons.prems(2) by simp
    moreover have "list_all is_digit (run @ [c])" using True Cons.prems(1) by simp
    moreover have "\<not> (\<exists>u a v. (run @ [c]) @ pre = u @ a # k # v \<and> is_digit a)"
      using Cons.prems(3) by simp
    ultimately have "scan_count k (run @ [c]) (pre @ ds @ k # post) = Some ds"
      using Cons.IH [of "run @ [c]"] ne by simp
    then show ?thesis using True by simp
  next
    case False
    have no: "\<not> (c = k \<and> run \<noteq> [])"
    proof
      assume a: "c = k \<and> run \<noteq> []"
      then have "run @ c # pre = butlast run @ last run # k # pre" by simp
      moreover have "is_digit (last run)"
        using a Cons.prems(1) by (simp add: list_all_iff)
      ultimately show False using Cons.prems(3) by blast
    qed
    have "\<not> (\<exists>u a v. [] @ pre = u @ a # k # v \<and> is_digit a)"
    proof
      assume "\<exists>u a v. [] @ pre = u @ a # k # v \<and> is_digit a"
      then obtain u a v where "pre = u @ a # k # v" "is_digit a" by auto
      then have "run @ c # pre = (run @ c # u) @ a # k # v \<and> is_digit a" by simp
      then show False using Cons.prems(3) by blast
    qed
    moreover have "pre = [] \<or> \<not> is_digit (last pre)"
      using Cons.prems(2) by (cases "pre = []") simp_all
    ultimately have "scan_count k [] (pre @ ds @ k # post) = Some (if pre = [] then [] @ ds else ds)"
      using Cons.IH [of "[]"] by simp
    then show ?thesis using False no by auto
  qed
qed

lemma scan_count_first_marker:
  "\<not> is_digit k \<Longrightarrow> list_all is_digit ds \<Longrightarrow> ds \<noteq> [] \<Longrightarrow>
   pre = [] \<or> \<not> is_digit (last pre) \<Longrightarrow>
   \<not> (\<exists>u a v. pre = u @ a # k # v \<and> is_digit a) \<Longrightarrow>
   scan_count k [] (pre @ ds @ k # post) = Some ds"
  using scan_count_found [of k ds "[]" pre post] by simp

lemma scan_count_absent:
  "list_all is_digit run \<Longrightarrow> \<not> (\<exists>u a v. run @ s = u @ a # k # v \<and> is_digit a) \<Longrightarrow>
   scan_count k run s = None"
proof (induction s arbitrary: run)
  case Nil
  show ?case by simp
next
  case (Cons c s)
  show ?case
  proof (cases "is_digit c")
    case True
    then show ?thesis using Cons.IH [of "run @ [c]"] Cons.prems by simp
  next
    case False
    have no: "\<not> (c = k \<and> run \<noteq> [])"
    proof
      assume a: "c = k \<and> run \<noteq> []"
      then have "run @ c # s = butlast run @ last run # k # s" by simp
      moreover have "is_digit (last run)"
        using a Cons.prems(1) by (simp add: list_all_iff)
      ultimately show False using Cons.prems(2) by blast
    qed
    have "\<not> (\<exists>u a v. [] @ s = u @ a # k # v \<and> is_digit a)"
    proof
      assume "\<exists>u a v. [] @ s = u @ a # k # v \<and> is_digit a"
      then obtain u a v where "s = u @ a # k # v" "is_digit a" by auto
      then have "run @ c # s = (run @ c # u) @ a # k # v \<and> is_digit a" by simp
      then show False using Cons.prems(2) by blast
    qed
    then have "scan_count k [] s = None" using Cons.IH [of "[]"] by simp
    then show ?thesis using False no by auto
  qed
qed

text \<open>The conversion of the count before a marker: its value, or the refusal of \<^verbatim>\<open>int\<close>.\<close>

lemma component_is_count:
  "\<not> is_digit k \<Longrightarrow>
   int_of_group (re_search_digits (then_char k) s) =
     (if 4300 < count_digits k s then Inl ValueError else Inr (count_before k s))"
  by (simp add: re_search_is_scan int_of_group_eq group_too_long_def count_before_def
      count_digits_def split: option.split)

lemma count_before_nonneg: "\<not> is_digit k \<Longrightarrow> 0 \<le> count_before k s"
proof (cases "re_search_digits (then_char k) s")
  case None
  assume "\<not> is_digit k"
  then show ?thesis using None by (simp add: re_search_is_scan count_before_def)
next
  case (Some g)
  assume k: "\<not> is_digit k"
  have "0 \<le> int_of_digits g"
    using Some by (intro int_of_digits_nonneg re_search_digits_all_digits)
  then show ?thesis
    using Some k by (simp add: re_search_is_scan count_before_def int_of_digits_decimal)
qed

lemma count_digits_run:
  "\<not> is_digit k \<Longrightarrow> list_all is_digit ds \<Longrightarrow> ds \<noteq> [] \<Longrightarrow>
   count_digits k (ds @ k # post) = length ds"
  using scan_count_run [of ds k "[]" post] by (simp add: count_digits_def)

lemma iso8601_string:
  "iso8601_duration_to_minutes B (PStr s) =
     (if s = [] then Inr None
      else if 4300 < count_digits CHR ''H'' s \<or> 4300 < count_digits CHR ''M'' s
           then Inl ValueError
      else Inr (if count_before CHR ''H'' s * 60 + count_before CHR ''M'' s = 0 then None
                else Some (count_before CHR ''H'' s * 60 + count_before CHR ''M'' s)))"
proof -
  have H: "\<not> is_digit CHR ''H''" and M: "\<not> is_digit CHR ''M''"
    by (simp_all add: is_digit_def)
  have "0 \<le> count_before CHR ''H'' s * 60 + count_before CHR ''M'' s"
    using count_before_nonneg [OF H, of s] count_before_nonneg [OF M, of s] by simp
  then show ?thesis
    by (auto simp: iso8601_duration_to_minutes_def py_truthy_def Let_def
          component_is_count [OF H] component_is_count [OF M])
qed

lemma to_int_safe_string:
  "to_int_safe B (PStr s) =
     (if filter is_digit s = [] then Inr None
      else if 4300 < length (filter is_digit s) then Inl ValueError
      else Inr (Some (decimal_value (filter is_digit s))))"
  by (simp add: to_int_safe_def py_str_def Let_def py_int_eq)

lemma to_int_safe_via_str:
  "to_int_safe B v =
     (if v = PNone then Inr None
      else case py_str B v of Inl e \<Rightarrow> Inl e | Inr s \<Rightarrow> to_int_safe B (PStr s))"
  by (simp add: to_int_safe_def py_str_def split: sum.split)

lemma replicate_digits:
  "is_digit c \<Longrightarrow> filter is_digit (replicate n c) = replicate n c"
  "is_digit c \<Longrightarrow> list_all is_digit (replicate n c)"
  by (simp_all add: list_all_iff)

text \<open>
  Claim C3, as amended. \<^verbatim>\<open>_iso8601_duration_to_minutes\<close> returns \<^verbatim>\<open>None\<close> for
  \<^verbatim>\<open>None\<close> and for the empty string. For any other string whose count before \<^verbatim>\<open>H\<close> and
  count before \<^verbatim>\<open>M\<close> have at most 4300 digits each, it returns the count before \<^verbatim>\<open>H\<close>
  times 60 plus the count before \<^verbatim>\<open>M\<close>, a missing component counting as zero, and
  \<^verbatim>\<open>None\<close> when this total is zero; with a longer count it raises \<^verbatim>\<open>ValueError\<close>.
  \<^verbatim>\<open>PT2H10M\<close> gives 130, \<^verbatim>\<open>PT45M\<close> gives 45, \<^verbatim>\<open>PT0H0M\<close> gives \<^verbatim>\<open>None\<close>.
\<close>

theorem iso8601_duration_to_minutes_spec:
  "iso8601_duration_to_minutes B PNone = Inr None
   \<and> iso8601_duration_to_minutes B (PStr s) =
       (if s = [] then Inr None
        else if 4300 < count_digits CHR ''H'' s \<or> 4300 < count_digits CHR ''M'' s
             then Inl ValueError
        else Inr (if count_before CHR ''H'' s * 60 + count_before CHR ''M'' s = 0 then None
                  else Some (count_before CHR ''H'' s * 60 + count_before CHR ''M'' s)))
   \<and> iso8601_duration_to_minutes B (PStr ''PT2H10M'') = Inr (Some 130)
   \<and> iso8601_duration_to_minutes B (PStr ''PT45M'') = Inr (Some 45)
   \<and> iso8601_duration_to_minutes B (PStr ''PT0H0M'') = Inr None"
proof -
  have examples:
    "iso8601_duration_to_minutes B (PStr ''PT2H10M'') = Inr (Some 130)"
    "iso8601_duration_to_minutes B (PStr ''PT45M'') = Inr (Some 45)"
    "iso8601_duration_to_minutes B (PStr ''PT0H0M'') = Inr None"
    by (simp_all add: iso8601_duration_to_minutes_def py_truthy_def is_digit_def
          int_of_group_def py_int_def int_max_str_digits_def int_of_digits_def digit_val_def)
  have "iso8601_duration_to_minutes B PNone = Inr None"
    by (simp add: iso8601_duration_to_minutes_def py_truthy_def)
  with examples iso8601_string [of B s] show ?thesis by simp
qed

text \<open>
  Claim C3 as stated fails on a count of more than 4300 digits: for 4301 digits before
  \<^verbatim>\<open>H\<close> the call raises \<^verbatim>\<open>ValueError\<close> and returns nothing.
\<close>

theorem iso8601_duration_long_count_counterexample:
  "iso8601_duration_to_minutes fixture_builtins (PStr (replicate 4301 CHR ''1'' @ ''H''))
     = Inl ValueError"
proof -
  have d: "is_digit CHR ''1''" and H: "\<not> is_digit CHR ''H''"
    by (simp_all add: is_digit_def)
  have "count_digits CHR ''H'' (replicate 4301 CHR ''1'' @ ''H'') = 4301"
    using count_digits_run [OF H replicate_digits(2) [OF d], of 4301 "[]"] by simp
  moreover have "replicate 4301 CHR ''1'' @ ''H'' \<noteq> []" by simp
  ultimately show ?thesis
    by (simp only: iso8601_string) simp
qed

text \<open>
  Claim C4, as amended. \<^verbatim>\<open>_to_int_safe\<close> returns \<^verbatim>\<open>None\<close> for \<^verbatim>\<open>None\<close> and for a text
  without a digit. For a text with at most 4300 digits it returns the decimal value of
  the digits of the text, every other character dropped; with more digits it raises
  \<^verbatim>\<open>ValueError\<close>. A value that is not a string is read through \<^verbatim>\<open>str\<close>.
  \<^verbatim>\<open>1,234 votes\<close> gives 1234 and the empty string gives \<^verbatim>\<open>None\<close>.
\<close>

theorem to_int_safe_spec:
  "to_int_safe B PNone = Inr None
   \<and> to_int_safe B (PStr s) =
       (if filter is_digit s = [] then Inr None
        else if 4300 < length (filter is_digit s) then Inl ValueError
        else Inr (Some (decimal_value (filter is_digit s))))
   \<and> to_int_safe B v =
       (if v = PNone then Inr None
        else case py_str B v of Inl e \<Rightarrow> Inl e | Inr s \<Rightarrow> to_int_safe B (PStr s))
   \<and> to_int_safe B (PStr ''1,234 votes'') = Inr (Some 1234)
   \<and> to_int_safe B (PStr []) = Inr None"
proof -
  have "to_int_safe B (PStr ''1,234 votes'') = Inr (Some 1234)"
    by (simp add: to_int_safe_def py_str_def is_digit_def py_int_def int_max_str_digits_def
        int_of_digits_def digit_val_def)
  moreover have "to_int_safe B (PStr []) = Inr None"
    by (simp add: to_int_safe_def py_str_def)
  moreover have "to_int_safe B PNone = Inr None"
    by (simp add: to_int_safe_def)
  ultimately show ?thesis
    using to_int_safe_string [of B s] to_int_safe_via_str [of B v] by simp
qed

text \<open>
  Claim C4 as stated fails on a text of 4301 digits: \<^verbatim>\<open>int\<close> raises \<^verbatim>\<open>ValueError\<close>.
\<close>

theorem to_int_safe_long_text_counterexample:
  "to_int_safe fixture_builtins (PStr (replicate 4301 CHR ''7'')) = Inl ValueError"
proof -
  have "is_digit CHR ''7''" by (simp add: is_digit_def)
  then show ?thesis by (simp add: to_int_safe_string replicate_digits(1))
qed

lemma to_int_safe_result:
  "to_int_safe B v = Inr r \<Longrightarrow> r = None \<or> (\<exists>n. r = Some n \<and> 0 \<le> n)"
proof -
  assume a: "to_int_safe B v = Inr r"
  have "0 \<le> int_of_digits (filter is_digit s)" for s
    by (rule int_of_digits_nonneg) (rule list_all_filter_is_digit)
  then show ?thesis
    using a
    by (auto simp: to_int_safe_def Let_def py_int_def split: if_splits sum.splits)
qed

lemma to_int_safe_raises:
  "to_int_safe B v = Inl e \<longleftrightarrow>
     v \<noteq> PNone \<and> (py_str B v = Inl e
        \<or> (\<exists>s. py_str B v = Inr s \<and> 4300 < length (filter is_digit s) \<and> e = ValueError))"
  by (auto simp: to_int_safe_def Let_def py_int_eq split: if_splits sum.splits)

lemma to_int_safe_huge_int:
  "4300 \<le> k \<Longrightarrow> to_int_safe B (PInt (- (10 ^ k))) = Inl ValueError"
proof -
  assume "4300 \<le> k"
  then have "py_str B (PInt (- (10 ^ k))) = Inl ValueError"
    by (simp add: py_str_def str_int_too_long)
  then show ?thesis
    using to_int_safe_raises [of B "PInt (- (10 ^ k))" ValueError] by blast
qed

text \<open>
  Claim C10, as amended. Whenever \<^verbatim>\<open>_to_int_safe\<close> returns, it returns \<^verbatim>\<open>None\<close> or an
  integer that is not negative: a sign is dropped with the other characters that are not
  digits, and a value that is not a string is read through \<^verbatim>\<open>str\<close>. It raises exactly
  when \<^verbatim>\<open>str\<close> of the value raises (an integer of more than 4300 digits does) or when
  the text holds more than 4300 digits. The string \<^verbatim>\<open>-12\<close> and the integer -12 both give
  12.
\<close>

theorem to_int_safe_nonneg:
  "(to_int_safe B v = Inr r \<longrightarrow> r = None \<or> (\<exists>n. r = Some n \<and> 0 \<le> n))
   \<and> (to_int_safe B v = Inl e \<longleftrightarrow>
        v \<noteq> PNone \<and> (py_str B v = Inl e
          \<or> (\<exists>s. py_str B v = Inr s \<and> 4300 < length (filter is_digit s) \<and> e = ValueError)))
   \<and> to_int_safe B v =
       (if v = PNone then Inr None
        else case py_str B v of Inl e \<Rightarrow> Inl e | Inr s \<Rightarrow> to_int_safe B (PStr s))
   \<and> to_int_safe B (PStr ''-12'') = Inr (Some 12)
   \<and> to_int_safe B (PInt (- 12)) = Inr (Some 12)
   \<and> to_int_safe B (PBool True) = Inr None"
proof -
  have "to_int_safe B (PStr ''-12'') = Inr (Some 12)"
    by (simp add: to_int_safe_def py_str_def is_digit_def py_int_def int_max_str_digits_def
        int_of_digits_def digit_val_def)
  moreover have "to_int_safe B (PInt (- 12)) = Inr (Some 12)"
    by (simp add: to_int_safe_def py_str_def str_int_def str_nat.simps is_digit_def py_int_def
        int_max_str_digits_def int_of_digits_def digit_val_def)
  moreover have "to_int_safe B (PBool True) = Inr None"
    by (simp add: to_int_safe_def py_str_def is_digit_def)
  ultimately show ?thesis
    using to_int_safe_result [of B v r] to_int_safe_raises [of B v e]
      to_int_safe_via_str [of B v]
    by blast
qed

theorem to_int_safe_nonneg_witness:
  "to_int_safe fixture_builtins (PStr ''-12'') = Inr (Some 12)
   \<and> (\<exists>n. Some (12::int) = Some n \<and> 0 \<le> n)"
proof -
  have a: "to_int_safe fixture_builtins (PStr ''-12'') = Inr (Some 12)"
    by (simp add: to_int_safe_def py_str_def is_digit_def py_int_def int_max_str_digits_def
        int_of_digits_def digit_val_def)
  with to_int_safe_nonneg [of fixture_builtins "PStr ''-12''" "Some 12"]
  have "Some (12::int) = None \<or> (\<exists>n. Some (12::int) = Some n \<and> 0 \<le> n)" by blast
  with a show ?thesis by simp
qed

text \<open>
  Claim C10 as stated fails where \<^verbatim>\<open>str\<close> or \<^verbatim>\<open>int\<close> refuses the value: the integer
  minus ten to the power 4300 (4301 digits) and the string of a sign and 4301 digits both
  raise \<^verbatim>\<open>ValueError\<close>.
\<close>

theorem to_int_safe_rejects_counterexample:
  "to_int_safe fixture_builtins (PInt (- (10 ^ 4300))) = Inl ValueError
   \<and> to_int_safe fixture_builtins (PStr (CHR ''-'' # replicate 4301 CHR ''9'')) = Inl ValueError"
proof (rule conjI)
  show "to_int_safe fixture_builtins (PInt (- (10 ^ 4300))) = Inl ValueError"
    by (rule to_int_safe_huge_int) simp
  have "is_digit CHR ''9''" "\<not> is_digit CHR ''-''" by (simp_all add: is_digit_def)
  then show "to_int_safe fixture_builtins (PStr (CHR ''-'' # replicate 4301 CHR ''9''))
      = Inl ValueError"
    by (simp add: to_int_safe_string replicate_digits(1))
qed

section \<open>Properties of the extractor\<close>

lemma is_movie_dict: "is_movie d \<Longrightarrow> \<exists>kvs. d = PDict kvs"
  by (cases d) (simp_all add: is_movie_def)

lemma scan_ld_step:
  "scan_ld (Some data # tags) =
     (if has_movie data
      then (case data of PList ds \<Rightarrow> (case find is_movie ds of Some (PDict kvs) \<Rightarrow> Some kvs | _ \<Rightarrow> None)
            | PDict kvs \<Rightarrow> Some kvs | _ \<Rightarrow> None)
      else scan_ld tags)"
proof (cases data)
  case (PList ds)
  show ?thesis
  proof (cases "find is_movie ds")
    case None
    then have "\<not> has_movie data" using PList by (auto simp: has_movie_def find_None_iff list_ex_iff)
    then show ?thesis using PList None by simp
  next
    case (Some d)
    then have "is_movie d" "d \<in> set ds" by (auto simp: find_Some_iff)
    then have "has_movie data" "\<exists>kvs. d = PDict kvs"
      using PList is_movie_dict [of d] by (auto simp: has_movie_def list_ex_iff)
    then show ?thesis using PList Some by auto
  qed
qed (auto simp: has_movie_def is_movie_def)



text \<open>Blocks that give no object are passed over.\<close>

lemma scan_ld_skip:
  "list_all no_movie_block pre \<Longrightarrow> scan_ld (pre @ tags) = scan_ld tags"
proof (induction pre)
  case Nil
  show ?case by simp
next
  case (Cons b pre)
  show ?case
  proof (cases b)
    case None
    then show ?thesis using Cons by simp
  next
    case (Some data)
    then have "\<not> has_movie data" using Cons.prems by (simp add: no_movie_block_def)
    then show ?thesis using Some Cons by (simp add: scan_ld_step del: scan_ld.simps)
  qed
qed

lemma find_first_movie:
  "\<not> list_ex is_movie ds1 \<Longrightarrow> is_movie d \<Longrightarrow> find is_movie (ds1 @ d # ds2) = Some d"
  by (induction ds1) auto

text \<open>
  The object selected is the first object of type Movie or CreativeWork of the page: the
  first block that holds one, and in a list its first such member.
\<close>

lemma scan_ld_select:
  assumes "list_all no_movie_block pre"
    and "dict_get ld ''@type'' = PStr ''Movie'' \<or> dict_get ld ''@type'' = PStr ''CreativeWork''"
    and "block = PDict ld \<or> (block = PList (ms @ PDict ld # ns) \<and> \<not> list_ex is_movie ms)"
  shows "scan_ld (pre @ Some block # rest) = Some ld"
proof -
  have m: "is_movie (PDict ld)" using assms(2) by (simp add: is_movie_def)
  have "scan_ld (Some block # rest) = Some ld"
    using assms(3) m find_first_movie [of ms "PDict ld" ns] by auto
  then show ?thesis using scan_ld_skip [OF assms(1)] by simp
qed




lemma extract_ratings_object:
  assumes "dict_get ld ''aggregateRating'' = PDict agg"
  shows "extract_ratings B ld =
     (if dict_get agg ''ratingValue'' = PNone
      then (case to_int_safe B (dict_get agg ''ratingCount'') of
              Inl e \<Rightarrow> Inl e
            | Inr votes \<Rightarrow> Inr (None, votes))
      else case builtin_float B (dict_get agg ''ratingValue'') of
             Inl e \<Rightarrow> Inl e
           | Inr x \<Rightarrow>
               (case to_int_safe B (dict_get agg ''ratingCount'') of
                  Inl e \<Rightarrow> Inl e
                | Inr votes \<Rightarrow> Inr (Some x, votes)))"
proof -
  have t: "(if py_truthy B (PDict agg) then PDict agg else PDict []) = PDict agg"
    by (cases agg) (simp_all add: py_truthy_def)
  show ?thesis
    unfolding extract_ratings_def assms t
    by (simp add: Let_def split: sum.split)
qed







lemma fetch_object:
  "scan_ld (ld_json soup) = Some ld \<Longrightarrow>
   fetch_min_from_imdb B u (Response soup) =
     (case extract_year B ld of
        Inl e \<Rightarrow> Inl e
      | Inr year \<Rightarrow>
          (case extract_ratings B ld of
             Inl e \<Rightarrow> Inl e
           | Inr (rating, votes) \<Rightarrow>
               (case iso8601_duration_to_minutes B (dict_get ld ''duration'') of
                  Inl e \<Rightarrow> Inl e
                | Inr (Some minutes) \<Rightarrow>
                    Inr \<lparr>URL = u, Year = year, IMDb_rating = rating, Number_of_Votes = votes,
                         Runtime = Some minutes\<rparr>
                | Inr None \<Rightarrow>
                    (case runtime_fallback (techspec_runtime soup) of
                       Inl e \<Rightarrow> Inl e
                     | Inr r \<Rightarrow>
                         Inr \<lparr>URL = u, Year = year, IMDb_rating = rating,
                              Number_of_Votes = votes, Runtime = r\<rparr>))))"
  by (simp add: fetch_min_from_imdb_def split: sum.split option.split prod.split)

text \<open>
  Claim C2. On a page whose first object of type Movie or CreativeWork (the first block
  that holds one, every block before it failing to parse or holding none; in a list, its
  first such member) carries datePublished \<^verbatim>\<open>2014-11-07\<close>, an aggregateRating with
  ratingValue \<^verbatim>\<open>8.6\<close> and ratingCount \<^verbatim>\<open>2,100,000\<close>, and duration \<^verbatim>\<open>PT2H49M\<close>, the
  extraction returns Year 2014, as rating the float that \<^verbatim>\<open>float("8.6")\<close> returns,
  2100000 votes and a runtime of 169 minutes.
\<close>

theorem fetch_extraction_fixture:
  assumes "ld_json soup = pre @ Some block # rest"
    and "list_all no_movie_block pre"
    and "block = PDict ld \<or> (block = PList (ms @ PDict ld # ns) \<and> \<not> list_ex is_movie ms)"
    and "dict_get ld ''@type'' = PStr ''Movie'' \<or> dict_get ld ''@type'' = PStr ''CreativeWork''"
    and "dict_get ld ''datePublished'' = PStr ''2014-11-07''"
    and "dict_get ld ''aggregateRating'' = PDict agg"
    and "dict_get agg ''ratingValue'' = PStr ''8.6''"
    and "dict_get agg ''ratingCount'' = PStr ''2,100,000''"
    and "dict_get ld ''duration'' = PStr ''PT2H49M''"
    and "builtin_float B (PStr ''8.6'') = Inr x"
  shows "fetch_min_from_imdb B u (Response soup) =
     Inr \<lparr>URL = u, Year = Some 2014, IMDb_rating = Some x, Number_of_Votes = Some 2100000,
          Runtime = Some 169\<rparr>"
proof -
  have sel: "scan_ld (ld_json soup) = Some ld"
    unfolding assms(1) using assms(2,4,3) by (rule scan_ld_select)
  have year: "extract_year B ld = Inr (Some 2014)"
    using assms(5)
    by (simp add: extract_year_def py_truthy_def py_str_def re_match_4digits_def is_digit_def
        py_int_def int_max_str_digits_def int_of_digits_def digit_val_def)
  have votes: "to_int_safe B (PStr ''2,100,000'') = Inr (Some 2100000)"
    by (simp add: to_int_safe_def py_str_def is_digit_def py_int_def int_max_str_digits_def
        int_of_digits_def digit_val_def)
  have ratings: "extract_ratings B ld = Inr (Some x, Some 2100000)"
    using assms(7,8,10) votes by (simp add: extract_ratings_object [OF assms(6)])
  have runtime: "iso8601_duration_to_minutes B (PStr ''PT2H49M'') = Inr (Some 169)"
    by (simp add: iso8601_duration_to_minutes_def py_truthy_def is_digit_def
        int_of_group_def py_int_def int_max_str_digits_def int_of_digits_def digit_val_def)
  show ?thesis
    using assms(9) year ratings runtime by (simp add: fetch_object [OF sel])
qed

text \<open>
  Two pages: a Movie object inside a list, after a block that does not parse and a block
  about a person; and a CreativeWork object as the only block.
\<close>

theorem fetch_extraction_fixture_witness:
  "fetch_min_from_imdb fixture_builtins ''https://www.imdb.com/title/tt0816692/''
       (Response \<lparr>ld_json = [None, Some (PDict [(''@type'', PStr ''Person'')]),
                             Some (PList [PStr ''x'', PDict fixture_ld])],
                  techspec_runtime = None\<rparr>) =
     Inr \<lparr>URL = ''https://www.imdb.com/title/tt0816692/'', Year = Some 2014,
          IMDb_rating = Some ''8.6'', Number_of_Votes = Some 2100000, Runtime = Some 169\<rparr>
   \<and> fetch_min_from_imdb fixture_builtins ''https://www.imdb.com/title/tt0816692/''
       (Response \<lparr>ld_json = [Some (PDict fixture_creative_work)], techspec_runtime = None\<rparr>) =
     Inr \<lparr>URL = ''https://www.imdb.com/title/tt0816692/'', Year = Some 2014,
          IMDb_rating = Some ''8.6'', Number_of_Votes = Some 2100000, Runtime = Some 169\<rparr>"
proof (rule conjI)
  show "fetch_min_from_imdb fixture_builtins ''https://www.imdb.com/title/tt0816692/''
       (Response \<lparr>ld_json = [None, Some (PDict [(''@type'', PStr ''Person'')]),
                             Some (PList [PStr ''x'', PDict fixture_ld])],
                  techspec_runtime = None\<rparr>) =
     Inr \<lparr>URL = ''https://www.imdb.com/title/tt0816692/'', Year = Some 2014,
          IMDb_rating = Some ''8.6'', Number_of_Votes = Some 2100000, Runtime = Some 169\<rparr>"
    by (rule fetch_extraction_fixture
          [where pre = "[None, Some (PDict [(''@type'', PStr ''Person'')])]"
             and block = "PList [PStr ''x'', PDict fixture_ld]" and rest = "[]"
             and ld = fixture_ld and ms = "[PStr ''x'']" and ns = "[]"
             and agg = "[(''@type'', PStr ''AggregateRating''), (''ratingValue'', PStr ''8.6''),
                         (''ratingCount'', PStr ''2,100,000'')]"])
       (simp_all add: fixture_ld_def fixture_fields_def fixture_builtins_def dict_get_def
          no_movie_block_def has_movie_def is_movie_def)
  show "fetch_min_from_imdb fixture_builtins ''https://www.imdb.com/title/tt0816692/''
       (Response \<lparr>ld_json = [Some (PDict fixture_creative_work)], techspec_runtime = None\<rparr>) =
     Inr \<lparr>URL = ''https://www.imdb.com/title/tt0816692/'', Year = Some 2014,
          IMDb_rating = Some ''8.6'', Number_of_Votes = Some 2100000, Runtime = Some 169\<rparr>"
    by (rule fetch_extraction_fixture
          [where pre = "[]" and block = "PDict fixture_creative_work" and rest = "[]"
             and ld = fixture_creative_work
             and agg = "[(''@type'', PStr ''AggregateRating''), (''ratingValue'', PStr ''8.6''),
                         (''ratingCount'', PStr ''2,100,000'')]"])
       (simp_all add: fixture_creative_work_def fixture_fields_def fixture_builtins_def
          dict_get_def)
qed




section \<open>Properties of the record store\<close>

lemma col_command_healthy:
  "client w \<longrightarrow> col w \<Longrightarrow> col_command healthy w = (None, w\<lparr>client := True, col := True\<rparr>)"
  by (auto simp: col_command_def ensure_connection_def healthy_def)

lemma col_command_store:
  "col_command bk w = (r, w1) \<Longrightarrow>
     population w1 = population w \<and> data_set w1 = data_set w \<and> shown w1 = shown w
     \<and> cache w1 = cache w"
  by (auto simp: col_command_def ensure_connection_def split: if_splits option.splits)

lemma mset_sort_key_proj:
  "mset (map f (sort_key g xs)) = image_mset f (mset xs)"
  by (metis mset_map mset_sort)

lemma st_cache_data_hit:
  "cache w = Some (stored, rows, msgs) \<Longrightarrow> now < stored + ttl \<Longrightarrow>
   st_cache_data ttl now body w = (Return rows, w\<lparr>shown := shown w @ msgs\<rparr>)"
  by (simp add: st_cache_data_def)

lemma st_cache_data_miss:
  "\<not> cache_fresh ttl now w \<Longrightarrow>
   st_cache_data ttl now body w =
     (case body w of
        (Return rows, w1) \<Rightarrow>
          (Return rows, w1\<lparr>cache := Some (now, rows, drop (length (shown w)) (shown w1))\<rparr>)
      | (Raise e, w1) \<Rightarrow> (Raise e, w1))"
  by (auto simp: st_cache_data_def cache_fresh_def split: option.splits)

lemma load_df_body_healthy:
  "client w \<longrightarrow> col w \<Longrightarrow>
   load_df_body healthy w =
     (Return (map (\<lambda>d. (ID d, Movie d)) (sort_key ID (population w))),
      w\<lparr>client := True, col := True\<rparr>)"
  using col_command_healthy [of w] by (simp add: load_df_body_def try_except_def)

text \<open>A listing that is not served from the cache, on a backend that does not fail.\<close>

lemma load_df_miss:
  assumes "\<not> cache_fresh 10 now w" and "client w \<longrightarrow> col w"
  shows "\<exists>rows w'. load_df healthy now w = (Return rows, w')
           \<and> sorted (map fst rows)
           \<and> mset rows = image_mset (\<lambda>d. (ID d, Movie d)) (mset (population w))
           \<and> population w' = population w \<and> shown w' = shown w
           \<and> cache w' = Some (now, rows, [])"
proof -
  let ?rows = "map (\<lambda>d. (ID d, Movie d)) (sort_key ID (population w))"
  have "load_df healthy now w =
          (Return ?rows, w\<lparr>client := True, col := True, cache := Some (now, ?rows, [])\<rparr>)"
    using assms(1) load_df_body_healthy [OF assms(2)]
    by (simp add: load_df_def st_cache_data_miss)
  moreover have "sorted (map fst ?rows)"
    by (simp add: comp_def)
  moreover have "mset ?rows = image_mset (\<lambda>d. (ID d, Movie d)) (mset (population w))"
    by (rule mset_sort_key_proj)
  ultimately show ?thesis by simp
qed

lemma load_df_hit:
  "cache w = Some (stored, rows, msgs) \<Longrightarrow> now < stored + 10 \<Longrightarrow>
   load_df bk now w = (Return rows, w\<lparr>shown := shown w @ msgs\<rparr>)"
  by (simp add: load_df_def st_cache_data_hit)

lemma draw_and_delete_rerun_clears:
  "draw_and_delete_rerun bk1 bk2 draw k w = (Return u, w') \<Longrightarrow> \<not> cache_fresh ttl now w'"
  by (auto simp: draw_and_delete_rerun_def cache_clear_def cache_fresh_def
      split: prod.splits outcome.splits)

text \<open>
  Claim C8, as amended. A listing that is not served from the cache, on a backend that
  does not fail and with the connection not left half made by an earlier failed ping,
  returns the rows sorted by ID ascending; the rows are the (ID, Movie) pairs of the
  documents of the collection, one per document and nothing else of the document; the
  collection is not changed and the rows are stored in the cache. A listing less than ten
  seconds after the one that filled the cache returns the stored rows, whatever the
  backend does and whatever the collection holds by then. The handler that draws and
  deletes leaves no entry in the cache.
\<close>

theorem load_df_sorted_projection:
  "(\<not> cache_fresh 10 now w \<and> (client w \<longrightarrow> col w) \<longrightarrow>
      (\<exists>rows w'. load_df healthy now w = (Return rows, w')
         \<and> sorted (map fst rows)
         \<and> mset rows = image_mset (\<lambda>d. (ID d, Movie d)) (mset (population w))
         \<and> population w' = population w \<and> shown w' = shown w
         \<and> cache w' = Some (now, rows, [])))
   \<and> (cache w = Some (stored, rows0, msgs) \<and> now < stored + 10 \<longrightarrow>
        load_df bk now w = (Return rows0, w\<lparr>shown := shown w @ msgs\<rparr>))
   \<and> (draw_and_delete_rerun bk1 bk2 draw k w = (Return u, w2) \<longrightarrow> \<not> cache_fresh 10 now w2)"
  using load_df_miss [of now w] load_df_hit [of w stored rows0 msgs now bk]
    draw_and_delete_rerun_clears [of bk1 bk2 draw k w u w2 10 now]
  by blast

text \<open>
  The example population, listed at time 0 with an empty cache and listed again at
  time 5.
\<close>

theorem load_df_sorted_projection_witness:
  "fst (load_df healthy 0 example_world) =
     Return [(1, ''Abre los ojos''), (2, ''Tesis''), (3, ''Volver'')]
   \<and> fst (load_df healthy 5 (snd (load_df healthy 0 example_world))) =
     Return [(1, ''Abre los ojos''), (2, ''Tesis''), (3, ''Volver'')]"
proof -
  have "\<not> cache_fresh 10 0 example_world \<and> (client example_world \<longrightarrow> col example_world)"
    by (simp add: example_world_def cache_fresh_def)
  with load_df_sorted_projection [of 0 example_world] obtain rows w' where
    l: "load_df healthy 0 example_world = (Return rows, w')"
    and c: "cache w' = Some (0, rows, [])"
    by blast
  have "fst (load_df healthy 0 example_world) =
     Return [(1, ''Abre los ojos''), (2, ''Tesis''), (3, ''Volver'')]"
    by (simp add: load_df_def st_cache_data_def load_df_body_def try_except_def col_command_def
        ensure_connection_def healthy_def example_world_def)
  with l have r: "rows = [(1, ''Abre los ojos''), (2, ''Tesis''), (3, ''Volver'')]" by simp
  have "cache w' = Some (0, rows, []) \<and> (5::nat) < 0 + 10" using c by simp
  with load_df_sorted_projection [of 5 w' 0 rows "[]" healthy]
  have "load_df healthy 5 w' = (Return rows, w'\<lparr>shown := shown w' @ []\<rparr>)" by blast
  with l r show ?thesis by simp
qed

text \<open>
  Claim C8 as stated fails while the cache holds an entry: after a listing at time 0 and
  the deletion of the document with ID 3, the listing at time 5 still returns the row
  with ID 3, which the collection no longer holds.
\<close>

theorem load_df_stale_counterexample:
  "(case load_df healthy 0 example_world of
      (r0, w0) \<Rightarrow>
        (case delete_one_by_id healthy 3 w0 of
           (n, w1) \<Rightarrow> (n, map ID (population w1), fst (load_df healthy 5 w1))))
   = (Return 1, [1, 2], Return [(1, ''Abre los ojos''), (2, ''Tesis''), (3, ''Volver'')])"
  by (simp add: load_df_def st_cache_data_def load_df_body_def delete_one_by_id_def
      try_except_def col_command_def ensure_connection_def healthy_def example_world_def)

lemma sample_positions:
  "distinct (take k (rev (remdups (rev (filter (\<lambda>i. i < n) draw @ [0..<n])))))
   \<and> set (take k (rev (remdups (rev (filter (\<lambda>i. i < n) draw @ [0..<n]))))) \<subseteq> {..<n}
   \<and> length (take k (rev (remdups (rev (filter (\<lambda>i. i < n) draw @ [0..<n]))))) = min k n"
proof -
  let ?xs = "rev (remdups (rev (filter (\<lambda>i. i < n) draw @ [0..<n])))"
  have s: "set ?xs = {..<n}" by auto
  have "length ?xs = card (set ?xs)" by (simp add: length_remdups_card_conv)
  then have l: "length ?xs = n" using s by simp
  have "set (take k ?xs) \<subseteq> set ?xs" by (rule set_take_subset)
  then show ?thesis using s l by (simp add: min.commute)
qed

lemma distinct_map_nth:
  "distinct xs \<Longrightarrow> distinct ps \<Longrightarrow> set ps \<subseteq> {..<length xs} \<Longrightarrow>
   distinct (map (\<lambda>i. xs ! i) ps)"
  by (auto simp: distinct_map inj_on_def nth_eq_iff_index_eq subset_iff)

lemma mongo_sample_ids:
  assumes "distinct (map ID docs)"
  shows "distinct (map ID (mongo_sample draw k docs))
         \<and> set (mongo_sample draw k docs) \<subseteq> set docs
         \<and> length (mongo_sample draw k docs) = min k (length docs)"
proof -
  let ?is = "take k (rev (remdups (rev (filter (\<lambda>i. i < length docs) draw @ [0..<length docs]))))"
  have p: "distinct ?is" "set ?is \<subseteq> {..<length docs}" "length ?is = min k (length docs)"
    using sample_positions [of k "length docs" draw] by simp_all
  have eq: "map ID (mongo_sample draw k docs) = map (\<lambda>i. map ID docs ! i) ?is"
    using p(2) by (auto simp: mongo_sample_def)
  have "distinct (map (\<lambda>i. map ID docs ! i) ?is)"
    by (rule distinct_map_nth [OF assms p(1)]) (use p(2) in simp)
  then have d: "distinct (map ID (mongo_sample draw k docs))"
    by (simp only: eq)
  have s: "set (mongo_sample draw k docs) \<subseteq> set docs"
    using p(2) by (auto simp: mongo_sample_def)
  have l: "length (mongo_sample draw k docs) = min k (length docs)"
    using p(3) by (simp add: mongo_sample_def)
  from d s l show ?thesis by blast
qed

lemma delete_count:
  assumes "distinct (map ID docs)" "distinct (map ID sel)" "set sel \<subseteq> set docs"
  shows "length (filter (\<lambda>d. ID d \<notin> ID ` set sel) docs) = length docs - length sel"
proof -
  have "length (filter (\<lambda>d. ID d \<in> ID ` set sel) docs)
        = length (filter (\<lambda>i. i \<in> ID ` set sel) (map ID docs))"
    by (simp add: filter_map comp_def)
  also have "\<dots> = card ({i. i \<in> ID ` set sel} \<inter> set (map ID docs))"
    using assms(1) by (rule distinct_length_filter)
  also have "{i. i \<in> ID ` set sel} \<inter> set (map ID docs) = set (map ID sel)"
    using assms(3) by auto
  also have "card (set (map ID sel)) = length sel"
    using assms(2) distinct_card by fastforce
  finally have "length (filter (\<lambda>d. ID d \<in> ID ` set sel) docs) = length sel" .
  then show ?thesis
    using sum_length_filter_compl [of "\<lambda>d. ID d \<in> ID ` set sel" docs] by simp
qed

text \<open>
  Claim C9. For a population of N documents with distinct IDs and k < N, on a backend
  that does not fail and with the connection not left half made: the sample has k rows,
  the bulk delete of the sampled IDs reports k deleted documents, the population is left
  with N - k documents, and none of them has a sampled ID.
\<close>

theorem draw_and_delete_removes_sample:
  assumes "distinct (map ID (population w))" and "k < length (population w)"
    and "client w \<longrightarrow> col w"
  shows "\<exists>sdocs w1 w2.
      sample_docs healthy draw k w = (Return sdocs, w1)
    \<and> length sdocs = k
    \<and> delete_many_by_ids healthy (map fst sdocs) w1 = (Return k, w2)
    \<and> draw_and_delete healthy healthy draw k w =
        (Return (), w2\<lparr>shown := shown w2 @ [DeletedMovies k]\<rparr>)
    \<and> length (population w2) = length (population w) - k
    \<and> (\<forall>d \<in> set (population w2). ID d \<notin> set (map fst sdocs))
    \<and> population w2 = filter (\<lambda>d. ID d \<notin> set (map fst sdocs)) (population w)"
proof -
  let ?pop = "population w"
  let ?sel = "mongo_sample draw k ?pop"
  let ?sdocs = "map (\<lambda>d. (ID d, Movie d)) ?sel"
  let ?w1 = "w\<lparr>client := True, col := True\<rparr>"
  let ?kept = "filter (\<lambda>d. ID d \<notin> set (map fst ?sdocs)) ?pop"
  let ?w2 = "?w1\<lparr>population := ?kept\<rparr>"
  have sel: "distinct (map ID ?sel)" "set ?sel \<subseteq> set ?pop" "length ?sel = k"
    using mongo_sample_ids [OF assms(1), of draw k] assms(2) by simp_all
  have ids: "set (map fst ?sdocs) = ID ` set ?sel"
    by (auto simp: image_iff)
  have kept: "length ?kept = length ?pop - k"
    using delete_count [OF assms(1) sel(1) sel(2)] sel(3) by (simp only: ids)
  have s: "sample_docs healthy draw k w = (Return ?sdocs, ?w1)"
    using col_command_healthy [OF assms(3)] by (simp add: sample_docs_def try_except_def)
  have "col_command healthy ?w1 = (None, ?w1)"
    using col_command_healthy [of ?w1] by simp
  then have d: "delete_many_by_ids healthy (map fst ?sdocs) ?w1 = (Return k, ?w2)"
    using kept assms(2) by (simp add: delete_many_by_ids_def try_except_def Let_def)
  have dd: "draw_and_delete healthy healthy draw k w =
        (Return (), ?w2\<lparr>shown := shown ?w2 @ [DeletedMovies k]\<rparr>)"
    by (simp only: draw_and_delete_def s d Let_def prod.case outcome.case)
  have "length ?sdocs = k" using sel(3) by simp
  moreover have "length (population ?w2) = length ?pop - k" using kept by simp
  moreover have "\<forall>d \<in> set (population ?w2). ID d \<notin> set (map fst ?sdocs)" by simp
  moreover have "population ?w2 = filter (\<lambda>d. ID d \<notin> set (map fst ?sdocs)) ?pop" by simp
  ultimately show ?thesis using s d dd by blast
qed

theorem draw_and_delete_removes_sample_witness:
  "map ID (population (snd (draw_and_delete healthy healthy [2, 0] 2 example_world))) = [1]"
proof -
  have a: "distinct (map ID (population example_world))"
    and b: "2 < length (population example_world)"
    and c: "client example_world \<longrightarrow> col example_world"
    by (simp_all add: example_world_def)
  from draw_and_delete_removes_sample [OF a b c, of "[2, 0]"]
  obtain sdocs w1 w2 where
    s: "sample_docs healthy [2, 0] 2 example_world = (Return sdocs, w1)"
    and dd: "draw_and_delete healthy healthy [2, 0] 2 example_world =
        (Return (), w2\<lparr>shown := shown w2 @ [DeletedMovies 2]\<rparr>)"
    and p: "population w2 = filter (\<lambda>d. ID d \<notin> set (map fst sdocs)) (population example_world)"
    by blast
  have "sample_docs healthy [2, 0] 2 example_world =
      (Return [(2, ''Tesis''), (3, ''Volver'')], example_world\<lparr>client := True, col := True\<rparr>)"
    by (simp add: sample_docs_def try_except_def col_command_def ensure_connection_def healthy_def
        example_world_def mongo_sample_def)
  with s have "sdocs = [(2, ''Tesis''), (3, ''Volver'')]" by simp
  with p have "map ID (population w2) = [1]" by (simp add: example_world_def)
  with dd show ?thesis by simp
qed

lemma try_except_Raise:
  "try_except (Raise e, w) caught handler = (if caught e then handler e w else (Raise e, w))"
  by (simp add: try_except_def)

lemma store_ops_return:
  "(\<exists>r w'. sample_docs bk draw k w = (Return r, w'))
   \<and> (\<exists>n w'. delete_one_by_id bk movie_id w = (Return n, w'))
   \<and> (\<exists>n w'. delete_many_by_ids bk ids w = (Return n, w'))"
proof (cases "col_command bk w")
  case (Pair r w1)
  then show ?thesis
    by (cases r)
       (auto simp: sample_docs_def delete_one_by_id_def delete_many_by_ids_def
          try_except_def Exception_def Let_def)
qed

lemma store_ops_failed:
  assumes f: "col_command bk w = (Some (e, n), w1)"
  shows "sample_docs bk draw k w = (Return [], w1\<lparr>shown := shown w1 @ [SamplingFailed e]\<rparr>)"
    and "delete_one_by_id bk movie_id w =
       (Return 0, w1\<lparr>population :=
                       remove_matching (min n 1) (\<lambda>d. ID d = movie_id) (population w),
                     shown := shown w1 @ [DeleteFailed e]\<rparr>)"
    and "delete_many_by_ids bk ids w =
       (Return 0, w1\<lparr>population := remove_matching n (\<lambda>d. ID d \<in> set ids) (population w),
                     shown := shown w1 @ [BulkDeleteFailed e]\<rparr>)"
    and "population w1 = population w" and "data_set w1 = data_set w"
  using f col_command_store [OF f]
  by (simp_all add: sample_docs_def delete_one_by_id_def delete_many_by_ids_def
      try_except_Raise Exception_def)

lemma load_df_failed:
  assumes f: "col_command bk w = (Some (e, n), w1)" and m: "\<not> cache_fresh 10 now w"
  shows "load_df bk now w =
       (if e = ServerSelectionTimeoutError \<or> e = ConnectionFailure \<or> e = ConfigurationError
        then (Return [], w1\<lparr>shown := shown w1 @ [CouldNotReach e],
                            cache := Some (now, [], [CouldNotReach e])\<rparr>)
        else (Raise e, w1))"
  using f col_command_store [OF f] m
  by (simp add: load_df_def st_cache_data_miss load_df_body_def try_except_Raise)

lemma late_failure:
  "col_command bk w = (Some (e, n), w1) \<Longrightarrow> 0 < n \<Longrightarrow> command_raises bk = Some (e, n)"
  by (auto simp: col_command_def ensure_connection_def split: if_splits option.splits)

text \<open>
  Claim C7, as amended. When the connection or the command raises \<open>e\<close>, the server having
  removed \<open>n\<close> documents by then: sampling returns the empty list, point and bulk deletion
  return 0, each with the error shown, for every \<open>e\<close>; a listing that is not served from
  the cache returns the empty table with the error shown when \<open>e\<close> is
  \<^verbatim>\<open>ServerSelectionTimeoutError\<close>, \<^verbatim>\<open>ConnectionFailure\<close> or \<^verbatim>\<open>ConfigurationError\<close>, storing
  the empty table in the cache, and raises \<open>e\<close> otherwise. Listing and sampling leave the
  collections as they were. A deletion leaves the collection without the first \<open>n\<close>
  documents it was to remove: as it was when \<open>n\<close> is 0, and \<open>n\<close> is not 0 only when the
  command itself raised after the server had applied it. Sampling and the two deletions
  never raise.
\<close>

theorem store_failures_handled:
  "(col_command bk w = (Some (e, n), w1) \<longrightarrow>
     sample_docs bk draw k w = (Return [], w1\<lparr>shown := shown w1 @ [SamplingFailed e]\<rparr>)
   \<and> delete_one_by_id bk movie_id w =
       (Return 0, w1\<lparr>population :=
                       remove_matching (min n 1) (\<lambda>d. ID d = movie_id) (population w),
                     shown := shown w1 @ [DeleteFailed e]\<rparr>)
   \<and> delete_many_by_ids bk ids w =
       (Return 0, w1\<lparr>population := remove_matching n (\<lambda>d. ID d \<in> set ids) (population w),
                     shown := shown w1 @ [BulkDeleteFailed e]\<rparr>)
   \<and> (\<not> cache_fresh 10 now w \<longrightarrow>
        load_df bk now w =
          (if e = ServerSelectionTimeoutError \<or> e = ConnectionFailure \<or> e = ConfigurationError
           then (Return [], w1\<lparr>shown := shown w1 @ [CouldNotReach e],
                               cache := Some (now, [], [CouldNotReach e])\<rparr>)
           else (Raise e, w1)))
   \<and> population w1 = population w \<and> data_set w1 = data_set w
   \<and> (0 < n \<longrightarrow> command_raises bk = Some (e, n)))
   \<and> remove_matching 0 P (population w) = population w
   \<and> (\<exists>r w'. sample_docs bk draw k w = (Return r, w'))
   \<and> (\<exists>c w'. delete_one_by_id bk movie_id w = (Return c, w'))
   \<and> (\<exists>c w'. delete_many_by_ids bk ids w = (Return c, w'))"
proof -
  have "sample_docs bk draw k w = (Return [], w1\<lparr>shown := shown w1 @ [SamplingFailed e]\<rparr>)
   \<and> delete_one_by_id bk movie_id w =
       (Return 0, w1\<lparr>population :=
                       remove_matching (min n 1) (\<lambda>d. ID d = movie_id) (population w),
                     shown := shown w1 @ [DeleteFailed e]\<rparr>)
   \<and> delete_many_by_ids bk ids w =
       (Return 0, w1\<lparr>population := remove_matching n (\<lambda>d. ID d \<in> set ids) (population w),
                     shown := shown w1 @ [BulkDeleteFailed e]\<rparr>)
   \<and> (\<not> cache_fresh 10 now w \<longrightarrow>
        load_df bk now w =
          (if e = ServerSelectionTimeoutError \<or> e = ConnectionFailure \<or> e = ConfigurationError
           then (Return [], w1\<lparr>shown := shown w1 @ [CouldNotReach e],
                               cache := Some (now, [], [CouldNotReach e])\<rparr>)
           else (Raise e, w1)))
   \<and> population w1 = population w \<and> data_set w1 = data_set w
   \<and> (0 < n \<longrightarrow> command_raises bk = Some (e, n))"
    if f: "col_command bk w = (Some (e, n), w1)"
    using store_ops_failed [OF f] load_df_failed [OF f, of now] late_failure [OF f]
    by blast
  moreover have "remove_matching 0 P (population w) = population w" by simp
  ultimately show ?thesis
    using store_ops_return [of bk draw k w movie_id ids] by blast
qed

text \<open>
  A ping that times out: the bulk delete returns 0 and the listing returns the empty
  table, each with the error shown, and the population is as it was.
\<close>

theorem store_failures_handled_witness:
  "delete_many_by_ids \<lparr>client_raises = None, ping_raises = Some ServerSelectionTimeoutError,
                        command_raises = None\<rparr> [1, 2] example_world =
     (Return 0, example_world\<lparr>client := True,
                              shown := [BulkDeleteFailed ServerSelectionTimeoutError]\<rparr>)
   \<and> load_df \<lparr>client_raises = None, ping_raises = Some ServerSelectionTimeoutError,
              command_raises = None\<rparr> 0 example_world =
     (Return [], example_world\<lparr>client := True,
                               shown := [CouldNotReach ServerSelectionTimeoutError],
                               cache := Some (0, [], [CouldNotReach ServerSelectionTimeoutError])\<rparr>)"
proof -
  let ?bk = "\<lparr>client_raises = None, ping_raises = Some ServerSelectionTimeoutError,
              command_raises = None\<rparr>"
  let ?w1 = "example_world\<lparr>client := True\<rparr>"
  have f: "col_command ?bk example_world = (Some (ServerSelectionTimeoutError, 0), ?w1)"
    by (simp add: col_command_def ensure_connection_def example_world_def)
  have m: "\<not> cache_fresh 10 0 example_world"
    by (simp add: cache_fresh_def example_world_def)
  note T = store_failures_handled [of ?bk example_world ServerSelectionTimeoutError 0 ?w1
      "[]" 0 0 "[1, 2]" 0 "\<lambda>d. ID d \<in> set [1, 2]"]
  from T f have "delete_many_by_ids ?bk [1, 2] example_world =
       (Return 0, ?w1\<lparr>population :=
                        remove_matching 0 (\<lambda>d. ID d \<in> set [1, 2]) (population example_world),
                      shown := shown ?w1 @ [BulkDeleteFailed ServerSelectionTimeoutError]\<rparr>)"
    by blast
  moreover from T have "remove_matching 0 (\<lambda>d. ID d \<in> set [1, 2]) (population example_world)
      = population example_world"
    by blast
  moreover from T f m have "load_df ?bk 0 example_world =
          (if ServerSelectionTimeoutError = ServerSelectionTimeoutError
              \<or> ServerSelectionTimeoutError = ConnectionFailure
              \<or> ServerSelectionTimeoutError = ConfigurationError
           then (Return [], ?w1\<lparr>shown := shown ?w1 @ [CouldNotReach ServerSelectionTimeoutError],
                               cache := Some (0, [], [CouldNotReach ServerSelectionTimeoutError])\<rparr>)
           else (Raise ServerSelectionTimeoutError, ?w1))"
    by blast
  ultimately show ?thesis by (simp add: example_world_def)
qed

text \<open>
  Claim C7 as stated fails in two ways. An \<^verbatim>\<open>OperationFailure\<close> of the backend (a
  rejected login at the ping, say) leaves the listing as an exception, and no error is
  shown. And a bulk delete that raises after the server has removed the two documents
  returns 0 with the error shown, while the two documents are gone.
\<close>

theorem store_failures_counterexample:
  "fst (load_df \<lparr>client_raises = None, ping_raises = Some OperationFailure,
                 command_raises = None\<rparr> 0 example_world) = Raise OperationFailure
   \<and> shown (snd (load_df \<lparr>client_raises = None, ping_raises = Some OperationFailure,
                 command_raises = None\<rparr> 0 example_world)) = []
   \<and> (case delete_many_by_ids \<lparr>client_raises = None, ping_raises = None,
                                command_raises = Some (ConnectionFailure, 2)\<rparr> [1, 2] example_world
      of (r, w') \<Rightarrow> (r, map ID (population w'), shown w'))
     = (Return 0, [3], [BulkDeleteFailed ConnectionFailure])"
  by (simp add: load_df_def st_cache_data_def load_df_body_def delete_many_by_ids_def
      try_except_def Exception_def col_command_def ensure_connection_def example_world_def
      numeral_2_eq_2)

section \<open>Properties of saving to the Data-Set collection\<close>

lemma doc_out_keys: "map fst (doc_out f) = dataset_fields"
  by (simp add: doc_out_def dataset_fields_def)

lemma map_of_set_field: "map_of (set_field k v d) = (map_of d)(k \<mapsto> v)"
  by (induction d) (auto simp: fun_eq_iff)

lemma keys_set_field: "fst ` set (set_field k v d) = insert k (fst ` set d)"
  by (simp add: dom_map_of_conv_image_fst [symmetric] map_of_set_field)

lemma keys_set_fields: "fst ` set (set_fields d upd) = fst ` set d \<union> fst ` set upd"
proof (induction d upd rule: set_fields.induct)
  case (1 d)
  show ?case by simp
next
  case (2 d k v kvs)
  then show ?case by (simp add: keys_set_field)
qed

lemma map_of_set_fields:
  "distinct (map fst upd) \<Longrightarrow> map_of (set_fields d upd) = map_of d ++ map_of upd"
proof (induction d upd rule: set_fields.induct)
  case (1 d)
  show ?case by simp
next
  case (2 d k v kvs)
  then have k: "map_of kvs k = None" by (simp add: map_of_eq_None_iff)
  have "map_of (set_fields d ((k, v) # kvs)) = map_of (set_field k v d) ++ map_of kvs"
    using 2 by simp
  also have "\<dots> = (map_of d)(k \<mapsto> v) ++ map_of kvs"
    by (simp only: map_of_set_field)
  also have "\<dots> = map_of d ++ map_of ((k, v) # kvs)"
    using k by (auto simp: fun_eq_iff map_add_def split: option.splits)
  finally show ?case .
qed

lemma dict_get_set_fields:
  assumes "distinct (map fst upd)"
  shows "dict_get (set_fields d upd) k =
           (if k \<in> fst ` set upd then dict_get upd k else dict_get d k)"
proof (cases "map_of upd k")
  case None
  then have "k \<notin> fst ` set upd" by (simp add: map_of_eq_None_iff)
  then show ?thesis using None by (simp add: dict_get_def map_of_set_fields [OF assms] map_add_def)
next
  case (Some v)
  then have "k \<in> fst ` set upd" by (metis map_of_eq_None_iff option.distinct(1))
  then show ?thesis using Some by (simp add: dict_get_def map_of_set_fields [OF assms] map_add_def)
qed

lemma update_one_docs:
  "d' \<in> set (update_one flt upd coll) \<Longrightarrow>
     d' \<in> set coll \<or> (\<exists>d \<in> set coll. d' = set_fields d upd) \<or> d' = set_fields flt upd"
  by (induction coll) (auto split: if_splits)

lemma save_key_keys: "fst ` set (save_key B (doc_out f)) \<subseteq> set dataset_fields"
  by (auto simp: save_key_def dataset_fields_def)

lemma upsert_keys:
  assumes "d' \<in> set (upsert B f coll)"
  shows "d' \<in> set coll
         \<or> (\<exists>d \<in> set coll. fst ` set d' = fst ` set d \<union> set dataset_fields)
         \<or> fst ` set d' = set dataset_fields"
proof -
  have k: "fst ` set (doc_out f) = set dataset_fields"
    using doc_out_keys [of f] by (metis set_map)
  have n: "fst ` set (set_fields (save_key B (doc_out f)) (doc_out f)) = set dataset_fields"
    using save_key_keys [of B f] by (simp add: keys_set_fields k Un_absorb1)
  from update_one_docs [OF assms [unfolded upsert_def]]
  consider "d' \<in> set coll" | d where "d \<in> set coll" "d' = set_fields d (doc_out f)"
    | "d' = set_fields (save_key B (doc_out f)) (doc_out f)"
    by blast
  then show ?thesis
  proof cases
    case 1
    then show ?thesis by simp
  next
    case 2
    then have "fst ` set d' = fst ` set d \<union> set dataset_fields"
      by (simp add: keys_set_fields k)
    then show ?thesis using 2(1) by blast
  next
    case 3
    then show ?thesis using n by simp
  qed
qed

lemma saves_snoc: "saves B (fs @ [f]) = upsert B f (saves B fs)"
  by (simp add: saves_def)

lemma saves_keys: "d \<in> set (saves B fs) \<Longrightarrow> fst ` set d = set dataset_fields"
proof (induction fs arbitrary: d rule: rev_induct)
  case Nil
  then show ?case by (simp add: saves_def)
next
  case (snoc f fs)
  from upsert_keys [OF snoc.prems [unfolded saves_snoc]] snoc.IH
  show ?case by auto
qed

text \<open>
  Claim C6. The document the save handler writes has exactly the eleven DataSetRecord
  fields, and \<^verbatim>\<open>Budget\<close> is not one of them. Every document of a collection built by
  saves from the empty collection has exactly these fields, and a save puts \<^verbatim>\<open>Budget\<close>
  into no document that did not hold it before.
\<close>

theorem saved_documents_have_dataset_fields:
  "map fst (doc_out f) = dataset_fields
   \<and> ''Budget'' \<notin> set dataset_fields
   \<and> (\<forall>d \<in> set (saves B fs). fst ` set d = set dataset_fields)
   \<and> (\<forall>d \<in> set (upsert B f coll). ''Budget'' \<in> fst ` set d
         \<longrightarrow> (\<exists>d0 \<in> set coll. ''Budget'' \<in> fst ` set d0))"
proof -
  have b: "''Budget'' \<notin> set dataset_fields" by (simp add: dataset_fields_def)
  have "\<exists>d0 \<in> set coll. ''Budget'' \<in> fst ` set d0"
    if "d \<in> set (upsert B f coll)" "''Budget'' \<in> fst ` set d" for d
    using upsert_keys [OF that(1)] that(2) b by auto
  then show ?thesis using doc_out_keys [of f] b saves_keys [of _ B fs] by blast
qed


lemma saves_example: "saves fixture_builtins [example_form] = [doc_out example_form]"
  by (simp add: saves_def upsert_def save_key_def doc_out_def dict_get_def py_truthy_def
      example_form_def strip_def is_space_def)

theorem saved_documents_have_dataset_fields_witness:
  "saves fixture_builtins [example_form] = [doc_out example_form]
   \<and> fst ` set (doc_out example_form) = set dataset_fields"
proof -
  have "doc_out example_form \<in> set (saves fixture_builtins [example_form])"
    by (simp add: saves_example)
  with saved_documents_have_dataset_fields [of example_form fixture_builtins "[example_form]"]
  have "fst ` set (doc_out example_form) = set dataset_fields" by blast
  then show ?thesis by (simp add: saves_example)
qed

lemma matches_iff: "matches flt d \<longleftrightarrow> (\<forall>(k, v) \<in> set flt. dict_get d k = v)"
  by (simp add: matches_def list_all_iff)

lemma matches_after_set:
  assumes "distinct (map fst upd)" "agrees flt upd"
  shows "matches flt (set_fields d upd)"
proof -
  have "dict_get (set_fields d upd) k = v" if "(k, v) \<in> set flt" for k v
  proof -
    from that assms(2) have m: "map_of upd k = Some v"
      by (auto simp: agrees_def list_all_iff)
    then have "k \<in> fst ` set upd" by (metis map_of_eq_None_iff option.distinct(1))
    then have "dict_get (set_fields d upd) k = dict_get upd k"
      by (simp add: dict_get_set_fields [OF assms(1)])
    then show ?thesis using m by (simp add: dict_get_def)
  qed
  then show ?thesis by (auto simp: matches_iff)
qed

lemma update_one_no_match:
  "\<not> list_ex (matches flt) coll \<Longrightarrow> update_one flt upd coll = coll @ [set_fields flt upd]"
  by (induction coll) auto

lemma update_one_first_match:
  "\<not> list_ex (matches flt) pre \<Longrightarrow> matches flt d \<Longrightarrow>
   update_one flt upd (pre @ d # post) = pre @ set_fields d upd # post"
  by (induction pre) auto

lemma length_update_one:
  "length (update_one flt upd coll) = (if list_ex (matches flt) coll then length coll else Suc (length coll))"
  by (induction coll) auto

lemma count_after_update_one:
  assumes "distinct (map fst upd)" "agrees flt upd"
  shows "length (filter (matches flt) (update_one flt upd coll))
           = max 1 (length (filter (matches flt) coll))"
proof (induction coll)
  case Nil
  show ?case using matches_after_set [OF assms, of flt] by simp
next
  case (Cons d coll)
  show ?case
  proof (cases "matches flt d")
    case True
    then show ?thesis using matches_after_set [OF assms, of d] by simp
  next
    case False
    then show ?thesis using Cons by simp
  qed
qed

lemma split_first_match:
  "list_ex P xs \<Longrightarrow> \<exists>pre d post. xs = pre @ d # post \<and> \<not> list_ex P pre \<and> P d"
proof (induction xs)
  case Nil
  then show ?case by simp
next
  case (Cons x xs)
  show ?case
  proof (cases "P x")
    case True
    then have "x # xs = [] @ x # xs \<and> \<not> list_ex P [] \<and> P x" by simp
    then show ?thesis by blast
  next
    case False
    with Cons obtain pre d post where "xs = pre @ d # post" "\<not> list_ex P pre" "P d" by auto
    then have "x # xs = (x # pre) @ d # post \<and> \<not> list_ex P (x # pre) \<and> P d"
      using False by simp
    then show ?thesis by blast
  qed
qed

lemma doc_out_distinct: "distinct (map fst (doc_out f))"
  by (simp add: doc_out_keys dataset_fields_def)

lemma save_key_agrees: "agrees (save_key B (doc_out f)) (doc_out f)"
  by (simp add: agrees_def save_key_def dict_get_def doc_out_def)

lemma save_key_eq:
  "save_key B (doc_out f) =
     (if strip (url f) \<noteq> [] then [(''URL'', PStr (strip (url f)))]
      else [(''Movie'', if mv f \<noteq> [] then PStr (mv f) else PNone),
            (''Year'', case fetched f of Some d \<Rightarrow> opt_int (Year d) | None \<Rightarrow> PNone)])"
proof -
  have "strip [] = []" by (simp add: strip_def)
  then show ?thesis
    by (auto simp: save_key_def dict_get_def doc_out_def py_truthy_def)
qed

lemma saved_values:
  "k \<in> set dataset_fields \<Longrightarrow> dict_get (set_fields d (doc_out f)) k = dict_get (doc_out f) k"
  using doc_out_keys [of f]
  by (simp add: dict_get_set_fields [OF doc_out_distinct]) (metis set_map)


lemma filter_update_one_same:
  assumes "\<And>d. matches flt d \<Longrightarrow> P (set_fields d upd) = P d" and "\<not> P (set_fields flt upd)"
  shows "length (filter P (update_one flt upd coll)) = length (filter P coll)"
  using assms by (induction coll) auto

lemma filter_update_one_le:
  assumes "\<And>d. \<not> P (set_fields d upd)"
  shows "length (filter P (update_one flt upd coll)) \<le> length (filter P coll)"
  using assms by (induction coll) auto

lemma doc_out_URL:
  "dict_get (set_fields d (doc_out f)) ''URL'' =
     (if url f \<noteq> [] then PStr (strip (url f)) else PNone)"
proof -
  have "dict_get (set_fields d (doc_out f)) ''URL'' = dict_get (doc_out f) ''URL''"
    by (rule saved_values) (simp add: dataset_fields_def)
  then show ?thesis by (simp add: dict_get_def doc_out_def)
qed

lemma matches_URL: "matches [(''URL'', PStr x)] = has_url x"
  by (simp add: fun_eq_iff matches_def has_url_def)

lemma upsert_written:
  "\<exists>e \<in> set (upsert B f coll). matches (save_key B (doc_out f)) e
       \<and> (\<forall>k \<in> set dataset_fields. dict_get e k = dict_get (doc_out f) k)"
proof (cases "list_ex (matches (save_key B (doc_out f))) coll")
  case False
  let ?e = "set_fields (save_key B (doc_out f)) (doc_out f)"
  have "?e \<in> set (upsert B f coll)"
    using update_one_no_match [OF False] by (simp add: upsert_def)
  moreover have "matches (save_key B (doc_out f)) ?e"
    by (rule matches_after_set [OF doc_out_distinct save_key_agrees])
  ultimately show ?thesis using saved_values by blast
next
  case True
  from split_first_match [OF True] obtain pre d post where
    c: "coll = pre @ d # post" "\<not> list_ex (matches (save_key B (doc_out f))) pre"
       "matches (save_key B (doc_out f)) d"
    by blast
  let ?e = "set_fields d (doc_out f)"
  have "?e \<in> set (upsert B f coll)"
    using update_one_first_match [OF c(2,3)] c(1) by (simp add: upsert_def)
  moreover have "matches (save_key B (doc_out f)) ?e"
    by (rule matches_after_set [OF doc_out_distinct save_key_agrees])
  ultimately show ?thesis using saved_values by blast
qed

lemma unique_filter:
  assumes "length (filter P xs) = 1" "e \<in> set xs" "P e" "d \<in> set xs" "P d"
  shows "d = e"
proof -
  from assms(1) obtain y where y: "filter P xs = [y]"
    by (cases "filter P xs") auto
  have "e \<in> set (filter P xs)" "d \<in> set (filter P xs)" using assms by simp_all
  then show ?thesis by (simp add: y)
qed

lemma url_unique_step:
  assumes "x \<noteq> []" "length (filter (has_url x) coll) \<le> 1"
  shows "length (filter (has_url x) (upsert B f coll)) \<le> 1"
proof (cases "strip (url f) = []")
  case True
  have "\<not> has_url x (set_fields d (doc_out f))" for d
    using True assms(1) by (auto simp: has_url_def doc_out_URL)
  from filter_update_one_le [of "has_url x" "doc_out f", OF this] assms(2)
  show ?thesis unfolding upsert_def using le_trans by blast
next
  case False
  then have key: "save_key B (doc_out f) = [(''URL'', PStr (strip (url f)))]"
    by (simp add: save_key_eq)
  have u: "url f \<noteq> []" using False by (auto simp: strip_def)
  show ?thesis
  proof (cases "strip (url f) = x")
    case True
    have "length (filter (has_url x) (upsert B f coll)) = max 1 (length (filter (has_url x) coll))"
      using count_after_update_one [OF doc_out_distinct save_key_agrees, of B f coll]
      by (simp add: upsert_def key True matches_URL)
    then show ?thesis using assms(2) by simp
  next
    case False
    have "has_url x (set_fields d (doc_out f)) = has_url x d"
      if "matches [(''URL'', PStr (strip (url f)))] d" for d
      using that False u by (auto simp: matches_URL has_url_def doc_out_URL)
    moreover have "\<not> has_url x (set_fields [(''URL'', PStr (strip (url f)))] (doc_out f))"
      using False u by (simp add: has_url_def doc_out_URL)
    ultimately have "length (filter (has_url x) (upsert B f coll)) = length (filter (has_url x) coll)"
      unfolding upsert_def key by (rule filter_update_one_same)
    then show ?thesis using assms(2) by simp
  qed
qed

lemma url_unique_saves: "x \<noteq> [] \<Longrightarrow> length (filter (has_url x) (saves B fs)) \<le> 1"
proof (induction fs rule: rev_induct)
  case Nil
  show ?case by (simp add: saves_def)
next
  case (snoc f fs)
  then have "length (filter (has_url x) (saves B fs)) \<le> 1" by simp
  from url_unique_step [OF snoc.prems this] show ?case by (simp only: saves_snoc)
qed


lemma save_to_data_set_writes:
  "col_command bk w = (None, w1) \<Longrightarrow>
   data_set (snd (save_to_data_set B bk f w)) = upsert B f (data_set w)"
  using col_command_store [of bk w None w1]
  by (simp add: save_to_data_set_def try_except_def)

text \<open>
  Claim C5, as amended. The save handler matches on the URL when the stripped URL is not
  empty, and on the pair (Movie, Year) otherwise. When no stored document matches, one
  document is added; when some document matches, the first of them is updated in place.
  In both cases the document holds the values of the call in all eleven fields. The
  number of documents that match the key afterwards is the number before, and 1 when none
  did. In a collection built by saves from the empty collection, a save with a URL leaves
  exactly one document with that URL, holding the values of that save.
\<close>

theorem upsert_by_key:
  "save_key B (doc_out f) =
     (if strip (url f) \<noteq> [] then [(''URL'', PStr (strip (url f)))]
      else [(''Movie'', if mv f \<noteq> [] then PStr (mv f) else PNone),
            (''Year'', case fetched f of Some d \<Rightarrow> opt_int (Year d) | None \<Rightarrow> PNone)])
   \<and> (col_command bk w = (None, w1) \<longrightarrow>
        data_set (snd (save_to_data_set B bk f w)) = upsert B f (data_set w))
   \<and> (\<not> list_ex (matches (save_key B (doc_out f))) coll \<longrightarrow>
        upsert B f coll = coll @ [set_fields (save_key B (doc_out f)) (doc_out f)])
   \<and> (\<not> list_ex (matches (save_key B (doc_out f))) pre \<and> matches (save_key B (doc_out f)) d \<longrightarrow>
        upsert B f (pre @ d # post) = pre @ set_fields d (doc_out f) # post)
   \<and> (\<forall>k \<in> set dataset_fields. dict_get (set_fields d (doc_out f)) k = dict_get (doc_out f) k)
   \<and> length (filter (matches (save_key B (doc_out f))) (upsert B f coll))
        = max 1 (length (filter (matches (save_key B (doc_out f))) coll))
   \<and> (strip (url f) \<noteq> [] \<longrightarrow>
        length (filter (has_url (strip (url f))) (upsert B f (saves B fs))) = 1
        \<and> (\<forall>d \<in> set (upsert B f (saves B fs)). has_url (strip (url f)) d \<longrightarrow>
              (\<forall>k \<in> set dataset_fields. dict_get d k = dict_get (doc_out f) k)))"
proof -
  let ?key = "save_key B (doc_out f)"
  have count: "length (filter (matches ?key) (upsert B f c)) = max 1 (length (filter (matches ?key) c))"
    for c
    using count_after_update_one [OF doc_out_distinct save_key_agrees, of B f c]
    by (simp add: upsert_def)
  have roundtrip:
    "length (filter (has_url (strip (url f))) (upsert B f (saves B fs))) = 1
        \<and> (\<forall>d \<in> set (upsert B f (saves B fs)). has_url (strip (url f)) d \<longrightarrow>
              (\<forall>k \<in> set dataset_fields. dict_get d k = dict_get (doc_out f) k))"
    if u: "strip (url f) \<noteq> []"
  proof -
    let ?x = "strip (url f)"
    let ?after = "upsert B f (saves B fs)"
    have key: "matches ?key = has_url ?x"
      using u by (simp add: save_key_eq matches_URL)
    have one: "length (filter (has_url ?x) ?after) = 1"
      using count [of "saves B fs"] url_unique_saves [OF u, of B fs] by (simp add: key)
    from upsert_written [of B f "saves B fs"] obtain e where
      e: "e \<in> set ?after" "has_url ?x e"
         "\<forall>k \<in> set dataset_fields. dict_get e k = dict_get (doc_out f) k"
      by (auto simp: key)
    have "d = e" if "d \<in> set ?after" "has_url ?x d" for d
      using unique_filter [OF one e(1,2) that] .
    then show ?thesis using one e(3) by blast
  qed
  have none: "upsert B f coll = coll @ [set_fields ?key (doc_out f)]"
    if "\<not> list_ex (matches ?key) coll"
    using update_one_no_match [OF that] by (simp add: upsert_def)
  have first: "upsert B f (pre @ d # post) = pre @ set_fields d (doc_out f) # post"
    if "\<not> list_ex (matches ?key) pre \<and> matches ?key d"
    using that update_one_first_match [of ?key pre d] by (simp add: upsert_def)
  show ?thesis
    using save_key_eq [of B f] save_to_data_set_writes [of bk w w1 B f] none first
      saved_values [of _ d f] count [of coll] roundtrip
    by blast
qed


theorem upsert_by_key_witness:
  "length (filter (has_url ''https://www.imdb.com/title/tt0125659/'')
      (upsert fixture_builtins (example_form\<lparr>mv := ''Abre los ojos'', gross_num := 1000\<rparr>)
         (saves fixture_builtins [example_form]))) = 1
   \<and> map (\<lambda>d. (dict_get d ''Movie'', dict_get d ''Gross Profit''))
      (upsert fixture_builtins (example_form\<lparr>mv := ''Abre los ojos'', gross_num := 1000\<rparr>)
         (saves fixture_builtins [example_form])) = [(PStr ''Abre los ojos'', PInt 1000)]"
proof -
  let ?f = "example_form\<lparr>mv := ''Abre los ojos'', gross_num := 1000\<rparr>"
  have u: "strip (url ?f) = ''https://www.imdb.com/title/tt0125659/''"
    by (simp add: example_form_def strip_def is_space_def)
  then have "strip (url ?f) \<noteq> []" by simp
  with upsert_by_key [of fixture_builtins ?f _ _ _ _ _ _ _ "[example_form]"]
  have "length (filter (has_url (strip (url ?f)))
          (upsert fixture_builtins ?f (saves fixture_builtins [example_form]))) = 1"
    by blast
  moreover have "map (\<lambda>d. (dict_get d ''Movie'', dict_get d ''Gross Profit''))
      (upsert fixture_builtins ?f (saves fixture_builtins [example_form]))
        = [(PStr ''Abre los ojos'', PInt 1000)]"
    unfolding saves_example
    by (simp add: upsert_def save_key_def doc_out_def dict_get_def py_truthy_def
        example_form_def strip_def is_space_def matches_def)
  ultimately show ?thesis by (simp only: u)
qed

text \<open>
  Claim C5 as stated fails twice. A URL of blanks is stored as the empty string, which is
  not null, and the save matches on (Movie, Year). And after the four saves below (a film
  saved with its URL under another title, the film saved without URL, the first record
  retitled, the film saved without URL again) two documents stand at the key (Movie,
  Year): the fourth save has overwritten the record that had the URL, and the record of
  the second save keeps its old values.
\<close>

theorem upsert_by_key_counterexample:
  "dict_get (doc_out (example_form\<lparr>url := '' ''\<rparr>)) ''URL'' = PStr []
   \<and> save_key fixture_builtins (doc_out (example_form\<lparr>url := '' ''\<rparr>))
       = [(''Movie'', PStr ''Open Your Eyes''), (''Year'', PInt 1997)]
   \<and> map (\<lambda>d. (dict_get d ''URL'', dict_get d ''Movie'', dict_get d ''Year'', dict_get d ''Genre''))
       (saves fixture_builtins
          [example_form\<lparr>mv := ''Abre los ojos''\<rparr>,
           example_form\<lparr>url := [], genre_text := ''old''\<rparr>,
           example_form,
           example_form\<lparr>url := [], genre_text := ''new''\<rparr>])
       = [(PNone, PStr ''Open Your Eyes'', PInt 1997, PList [PStr ''new'']),
          (PNone, PStr ''Open Your Eyes'', PInt 1997, PList [PStr ''old''])]"
  by (simp add: saves_def upsert_def save_key_def doc_out_def dict_get_def py_truthy_def
      example_form_def strip_def is_space_def matches_def opt_int_def opt_float_def
      to_list_def)


end
